theory Spec2Isabelle
  imports Main "HOL-Library.List_Lexorder"
begin

section \<open>Python values\<close>

text \<open>
  A \<open>bytes\<close> object is the list of its bytes (numbers below 256). A \<open>str\<close> is the
  list of its Unicode code points (Python counts, strips and classifies code points, not
  bytes). \<open>ustr ''abc''\<close> writes either one from an ASCII literal.
  A value read from a JSON file is \<open>None\<close>, a bool, an int, a str, a list or a dict
  with str keys; a dict keeps its insertion order, so it is an association list.
  Floats are outside the model: the parser below reports a float literal as
  \<open>FloatUnmodelled\<close> instead of building a value.
\<close>

type_synonym bytes = "nat list"
type_synonym pystr = "nat list"

abbreviation (input) ustr :: "string \<Rightarrow> pystr" where
  "ustr s \<equiv> map of_char s"

datatype json =
    JNull
  | JBool bool
  | JInt int
  | JStr pystr
  | JList "json list"
  | JDict "(pystr \<times> json) list"

type_synonym pydict = "(pystr \<times> json) list"

datatype py_error =
    UnicodeDecodeError
  | UnicodeEncodeError
  | JSONDecodeError
  | BinasciiError
  | ValueError
  | IsADirectoryError
  | FileNotFoundError
  | FloatUnmodelled
  | ScannerFuel

text \<open>\<open>d.get(k)\<close>, \<open>k in d\<close> and \<open>d[k] = v\<close> on an insertion-ordered dict.\<close>

fun dict_get :: "(pystr \<times> 'v) list \<Rightarrow> pystr \<Rightarrow> 'v option" where
  "dict_get [] k = None"
| "dict_get ((k', v) # d) k = (if k' = k then Some v else dict_get d k)"

definition dict_has :: "(pystr \<times> 'v) list \<Rightarrow> pystr \<Rightarrow> bool" where
  "dict_has d k = (dict_get d k \<noteq> None)"

fun dict_set :: "(pystr \<times> 'v) list \<Rightarrow> pystr \<Rightarrow> 'v \<Rightarrow> (pystr \<times> 'v) list" where
  "dict_set [] k v = [(k, v)]"
| "dict_set ((k', v') # d) k v = (if k' = k then (k, v) # d else (k', v') # dict_set d k v)"

text \<open>Truth value of a JSON value (\<open>if not x\<close>, \<open>x or y\<close>).\<close>

fun py_truthy :: "json \<Rightarrow> bool" where
  "py_truthy JNull = False"
| "py_truthy (JBool b) = b"
| "py_truthy (JInt n) = (n \<noteq> 0)"
| "py_truthy (JStr s) = (s \<noteq> [])"
| "py_truthy (JList xs) = (xs \<noteq> [])"
| "py_truthy (JDict d) = (d \<noteq> [])"

subsection \<open>The parts of CPython taken as parameters\<close>

text \<open>
  \<open>str.isalnum\<close> on a code point beyond ASCII reads the Unicode character database, and
  \<open>str(x)\<close> of a list or dict is CPython's \<open>repr\<close>. Neither is code of the repository;
  both are parameters, and every theorem holds for all of them.
\<close>

record cpython =
  ucd_isalnum :: "nat \<Rightarrow> bool"
  container_repr :: "json \<Rightarrow> pystr"

text \<open>The instance used to run the model on ASCII inputs.\<close>

definition ascii_only :: cpython where
  "ascii_only = \<lparr>ucd_isalnum = (\<lambda>c. False), container_repr = (\<lambda>v. [])\<rparr>"

subsection \<open>Strings\<close>

definition py_isalnum :: "cpython \<Rightarrow> nat \<Rightarrow> bool" where
  "py_isalnum E c =
     (if c < 128 then (48 \<le> c \<and> c \<le> 57) \<or> (65 \<le> c \<and> c \<le> 90) \<or> (97 \<le> c \<and> c \<le> 122)
      else ucd_isalnum E c)"

text \<open>The code points \<open>str.strip()\<close> removes (those with \<open>str.isspace\<close>).\<close>

definition py_isspace :: "nat \<Rightarrow> bool" where
  "py_isspace c =
     ((9 \<le> c \<and> c \<le> 13) \<or> (28 \<le> c \<and> c \<le> 32) \<or> c = 0x85 \<or> c = 0xA0 \<or> c = 0x1680
      \<or> (0x2000 \<le> c \<and> c \<le> 0x200A) \<or> c = 0x2028 \<or> c = 0x2029 \<or> c = 0x202F
      \<or> c = 0x205F \<or> c = 0x3000)"

definition strip_where :: "(nat \<Rightarrow> bool) \<Rightarrow> pystr \<Rightarrow> pystr" where
  "strip_where p s = rev (dropWhile p (rev (dropWhile p s)))"

definition py_strip :: "pystr \<Rightarrow> pystr" where
  "py_strip s = strip_where py_isspace s"

fun digits_of :: "nat \<Rightarrow> pystr" where
  "digits_of n = (if n < 10 then [48 + n] else digits_of (n div 10) @ [48 + n mod 10])"

declare digits_of.simps [simp del]

definition int_repr :: "int \<Rightarrow> pystr" where
  "int_repr i = (if i < 0 then 45 # digits_of (nat (- i)) else digits_of (nat i))"

text \<open>\<open>str(x)\<close> of a JSON value.\<close>

fun py_str :: "cpython \<Rightarrow> json \<Rightarrow> pystr" where
  "py_str E JNull = ustr ''None''"
| "py_str E (JBool b) = (if b then ustr ''True'' else ustr ''False'')"
| "py_str E (JInt n) = int_repr n"
| "py_str E (JStr s) = s"
| "py_str E (JList xs) = container_repr E (JList xs)"
| "py_str E (JDict d) = container_repr E (JDict d)"

text \<open>\<open>s.split(sep)\<close> for a one-character separator: never an empty list.\<close>

fun split_on :: "nat \<Rightarrow> pystr \<Rightarrow> pystr list" where
  "split_on sep [] = [[]]"
| "split_on sep (c # cs) =
     (if c = sep then [] # split_on sep cs
      else (case split_on sep cs of p # ps \<Rightarrow> (c # p) # ps | [] \<Rightarrow> [[c]]))"

text \<open>\<open>"/".join(parts)\<close>, as \<open>str(path)\<close> prints a relative path.\<close>

fun join_with :: "nat \<Rightarrow> pystr list \<Rightarrow> pystr" where
  "join_with sep [] = []"
| "join_with sep [p] = p"
| "join_with sep (p # q # ps) = p @ sep # join_with sep (q # ps)"

subsection \<open>UTF-8\<close>

text \<open>
  \<open>raw.decode("utf-8")\<close>: \<open>None\<close> is \<open>UnicodeDecodeError\<close>. The decoder is strict: it
  refuses overlong forms, surrogates and code points beyond U+10FFFF.
\<close>

definition is_cont :: "nat \<Rightarrow> bool" where
  "is_cont b = (0x80 \<le> b \<and> b < 0xC0)"

fun utf8_decode :: "bytes \<Rightarrow> pystr option" where
  "utf8_decode [] = Some []"
| "utf8_decode (b0 # bs) =
     (if b0 < 0x80 then map_option ((#) b0) (utf8_decode bs)
      else if 0xC2 \<le> b0 \<and> b0 < 0xE0 then
        (case bs of
           b1 # r \<Rightarrow>
             if is_cont b1
             then map_option ((#) ((b0 - 0xC0) * 64 + (b1 - 0x80))) (utf8_decode r)
             else None
         | _ \<Rightarrow> None)
      else if 0xE0 \<le> b0 \<and> b0 < 0xF0 then
        (case bs of
           b1 # b2 # r \<Rightarrow>
             let cp = (b0 - 0xE0) * 4096 + (b1 - 0x80) * 64 + (b2 - 0x80)
             in if is_cont b1 \<and> is_cont b2 \<and> 0x800 \<le> cp \<and> \<not> (0xD800 \<le> cp \<and> cp < 0xE000)
                then map_option ((#) cp) (utf8_decode r)
                else None
         | _ \<Rightarrow> None)
      else if 0xF0 \<le> b0 \<and> b0 < 0xF5 then
        (case bs of
           b1 # b2 # b3 # r \<Rightarrow>
             let cp = (b0 - 0xF0) * 262144 + (b1 - 0x80) * 4096 + (b2 - 0x80) * 64 + (b3 - 0x80)
             in if is_cont b1 \<and> is_cont b2 \<and> is_cont b3 \<and> 0x10000 \<le> cp \<and> cp < 0x110000
                then map_option ((#) cp) (utf8_decode r)
                else None
         | _ \<Rightarrow> None)
      else None)"

text \<open>
  \<open>s.encode("utf-8")\<close>: \<open>None\<close> is \<open>UnicodeEncodeError\<close> (a surrogate cannot be
  encoded).
\<close>

definition utf8_encode_char :: "nat \<Rightarrow> bytes option" where
  "utf8_encode_char cp =
     (if cp < 0x80 then Some [cp]
      else if cp < 0x800 then Some [0xC0 + cp div 64, 0x80 + cp mod 64]
      else if cp < 0x10000 then
        (if 0xD800 \<le> cp \<and> cp < 0xE000 then None
         else Some [0xE0 + cp div 4096, 0x80 + (cp div 64) mod 64, 0x80 + cp mod 64])
      else if cp < 0x110000 then
        Some [0xF0 + cp div 262144, 0x80 + (cp div 4096) mod 64, 0x80 + (cp div 64) mod 64,
              0x80 + cp mod 64]
      else None)"

fun utf8_encode :: "pystr \<Rightarrow> bytes option" where
  "utf8_encode [] = Some []"
| "utf8_encode (c # cs) =
     (case utf8_encode_char c of
        None \<Rightarrow> None
      | Some bs \<Rightarrow> map_option ((@) bs) (utf8_encode cs))"

subsection \<open>Base64\<close>

text \<open>
  The standard alphabet \<open>A-Z a-z 0-9 + /\<close>: \<open>b64_chr\<close> is the encoder's table,
  \<open>b64_val\<close> the decoder's (\<open>None\<close> for a character outside the alphabet).
\<close>

definition b64_chr :: "nat \<Rightarrow> nat" where
  "b64_chr n =
     (if n < 26 then 65 + n else if n < 52 then 71 + n else if n < 62 then n - 4
      else if n = 62 then 43 else 47)"

definition b64_val :: "nat \<Rightarrow> nat option" where
  "b64_val c =
     (if 65 \<le> c \<and> c \<le> 90 then Some (c - 65)
      else if 97 \<le> c \<and> c \<le> 122 then Some (c - 71)
      else if 48 \<le> c \<and> c \<le> 57 then Some (c + 4)
      else if c = 43 then Some 62
      else if c = 47 then Some 63
      else None)"

text \<open>\<open>base64.b64encode(raw)\<close>: three bytes give four characters, the rest is padded with \<open>=\<close>.\<close>

fun b64encode :: "bytes \<Rightarrow> bytes" where
  "b64encode (a # b # c # r) =
     b64_chr (a div 4) # b64_chr ((a mod 4) * 16 + b div 16)
       # b64_chr ((b mod 16) * 4 + c div 64) # b64_chr (c mod 64) # b64encode r"
| "b64encode [a, b] =
     [b64_chr (a div 4), b64_chr ((a mod 4) * 16 + b div 16), b64_chr ((b mod 16) * 4), 61]"
| "b64encode [a] = [b64_chr (a div 4), b64_chr ((a mod 4) * 16), 61, 61]"
| "b64encode [] = []"

text \<open>
  \<open>binascii.a2b_base64\<close> without strict mode (CPython 3.11 and later): the state is the
  position in the quad, the bits left over, the pads seen and the output so far. A
  character outside the alphabet is skipped; a pad that completes the quad ends the
  input; input that ends inside a quad is \<open>binascii.Error\<close>.
\<close>

fun a2b_base64 :: "nat \<Rightarrow> nat \<Rightarrow> nat \<Rightarrow> bytes \<Rightarrow> bytes \<Rightarrow> py_error + bytes" where
  "a2b_base64 quad_pos leftchar pads out [] =
     (if quad_pos \<noteq> 0 then Inl BinasciiError else Inr out)"
| "a2b_base64 quad_pos leftchar pads out (this_ch # rest) =
     (if this_ch = 61 then
        (if quad_pos \<ge> 2 then
           (if quad_pos + (pads + 1) \<ge> 4 then Inr out
            else a2b_base64 quad_pos leftchar (pads + 1) out rest)
         else a2b_base64 quad_pos leftchar pads out rest)
      else
        (case b64_val this_ch of
           None \<Rightarrow> a2b_base64 quad_pos leftchar pads out rest
         | Some v \<Rightarrow>
             if quad_pos = 0 then a2b_base64 1 v 0 out rest
             else if quad_pos = 1 then
               a2b_base64 2 (v mod 16) 0 (out @ [leftchar * 4 + v div 16]) rest
             else if quad_pos = 2 then
               a2b_base64 3 (v mod 4) 0 (out @ [leftchar * 16 + v div 4]) rest
             else a2b_base64 0 0 0 (out @ [leftchar * 64 + v]) rest))"

text \<open>
  \<open>base64.b64decode(s)\<close> for a str: \<open>s.encode("ascii")\<close> first (\<open>ValueError\<close> on a
  character beyond ASCII), then \<open>a2b_base64\<close>.
\<close>

definition b64decode :: "pystr \<Rightarrow> py_error + bytes" where
  "b64decode s =
     (if \<exists>c \<in> set s. c \<ge> 128 then Inl ValueError else a2b_base64 0 0 0 [] s)"

subsection \<open>json.dumps\<close>

text \<open>
  \<open>json.dumps(v, ensure_ascii=False, separators=(",", ":"))\<close>. A string is quoted; the
  quote, the backslash and the control characters below U+0020 are escaped, every other
  code point is written as it is.
\<close>

definition hex_digit :: "nat \<Rightarrow> nat" where
  "hex_digit n = (if n < 10 then 48 + n else 87 + n)"

definition escape_char :: "nat \<Rightarrow> pystr" where
  "escape_char c =
     (if c = 34 then [92, 34]
      else if c = 92 then [92, 92]
      else if c = 10 then [92, 110]
      else if c = 13 then [92, 114]
      else if c = 9 then [92, 116]
      else if c = 8 then [92, 98]
      else if c = 12 then [92, 102]
      else if c < 32 then [92, 117, 48, 48, hex_digit (c div 16), hex_digit (c mod 16)]
      else [c])"

definition json_string :: "pystr \<Rightarrow> pystr" where
  "json_string s = 34 # concat (map escape_char s) @ [34]"

fun json_dumps :: "json \<Rightarrow> pystr"
  and dumps_items :: "json list \<Rightarrow> pystr"
  and dumps_pairs :: "(pystr \<times> json) list \<Rightarrow> pystr"
where
  "json_dumps JNull = ustr ''null''"
| "json_dumps (JBool b) = (if b then ustr ''true'' else ustr ''false'')"
| "json_dumps (JInt n) = int_repr n"
| "json_dumps (JStr s) = json_string s"
| "json_dumps (JList xs) = 91 # dumps_items xs @ [93]"
| "json_dumps (JDict d) = 123 # dumps_pairs d @ [125]"
| "dumps_items [] = []"
| "dumps_items [x] = json_dumps x"
| "dumps_items (x # y # ys) = json_dumps x @ 44 # dumps_items (y # ys)"
| "dumps_pairs [] = []"
| "dumps_pairs [(k, v)] = json_string k @ 58 # json_dumps v"
| "dumps_pairs ((k, v) # p # ps) = json_string k @ 58 # json_dumps v @ 44 # dumps_pairs (p # ps)"

text \<open>
  \<open>json.dumps(v, ensure_ascii=False, indent=2)\<close>, as \<open>_write_json\<close> calls it: one item
  per line, two spaces per level, \<open>": "\<close> after a key; an empty list or dict stays on
  one line.
\<close>

definition newline_indent :: "nat \<Rightarrow> pystr" where
  "newline_indent level = 10 # replicate (2 * level) 32"

fun json_dumps_indent :: "nat \<Rightarrow> json \<Rightarrow> pystr"
  and indent_items :: "nat \<Rightarrow> json list \<Rightarrow> pystr"
  and indent_pairs :: "nat \<Rightarrow> (pystr \<times> json) list \<Rightarrow> pystr"
where
  "json_dumps_indent level (JList xs) =
     (if xs = [] then ustr ''[]''
      else 91 # newline_indent (Suc level) @ indent_items (Suc level) xs
             @ newline_indent level @ [93])"
| "json_dumps_indent level (JDict d) =
     (if d = [] then ustr ''{}''
      else 123 # newline_indent (Suc level) @ indent_pairs (Suc level) d
             @ newline_indent level @ [125])"
| "json_dumps_indent level JNull = json_dumps JNull"
| "json_dumps_indent level (JBool b) = json_dumps (JBool b)"
| "json_dumps_indent level (JInt n) = json_dumps (JInt n)"
| "json_dumps_indent level (JStr s) = json_dumps (JStr s)"
| "indent_items level [] = []"
| "indent_items level [x] = json_dumps_indent level x"
| "indent_items level (x # y # ys) =
     json_dumps_indent level x @ 44 # newline_indent level @ indent_items level (y # ys)"
| "indent_pairs level [] = []"
| "indent_pairs level [(k, v)] = json_string k @ 58 # 32 # json_dumps_indent level v"
| "indent_pairs level ((k, v) # p # ps) =
     json_string k @ 58 # 32 # json_dumps_indent level v @ 44 # newline_indent level
       @ indent_pairs level (p # ps)"

subsection \<open>json.loads\<close>

text \<open>
  The scanner of CPython's \<open>json\<close> module, on the input that is left. Every failure of
  the scanner is \<open>JSONDecodeError\<close>. A number with a fraction or an exponent, \<open>NaN\<close>
  and \<open>Infinity\<close> are floats: the model stops there with \<open>FloatUnmodelled\<close>. The
  interpreter's recursion limit (a \<open>RecursionError\<close> on input nested about a thousand
  levels deep) and its limit on the digits of an int are not modelled.
\<close>

definition is_ws :: "nat \<Rightarrow> bool" where
  "is_ws c = (c = 32 \<or> c = 9 \<or> c = 10 \<or> c = 13)"

definition skip_ws :: "pystr \<Rightarrow> pystr" where
  "skip_ws s = dropWhile is_ws s"

definition is_digit :: "nat \<Rightarrow> bool" where
  "is_digit c = (48 \<le> c \<and> c \<le> 57)"

definition hex_val :: "nat \<Rightarrow> nat option" where
  "hex_val c =
     (if 48 \<le> c \<and> c \<le> 57 then Some (c - 48)
      else if 97 \<le> c \<and> c \<le> 102 then Some (c - 87)
      else if 65 \<le> c \<and> c \<le> 70 then Some (c - 55)
      else None)"

text \<open>The four hex digits of a \<open>\uXXXX\<close> escape.\<close>

definition hex4 :: "pystr \<Rightarrow> nat option" where
  "hex4 s =
     (case map hex_val (take 4 s) of
        [Some a, Some b, Some c, Some d] \<Rightarrow> Some (a * 4096 + b * 256 + c * 16 + d)
      | _ \<Rightarrow> None)"

definition unescape :: "nat \<Rightarrow> nat option" where
  "unescape e =
     (if e = 34 then Some 34
      else if e = 92 then Some 92
      else if e = 47 then Some 47
      else if e = 98 then Some 8
      else if e = 102 then Some 12
      else if e = 110 then Some 10
      else if e = 114 then Some 13
      else if e = 116 then Some 9
      else None)"

definition cons_char :: "nat \<Rightarrow> py_error + (pystr \<times> pystr) \<Rightarrow> py_error + (pystr \<times> pystr)" where
  "cons_char c r = (case r of Inl e \<Rightarrow> Inl e | Inr (s, rest) \<Rightarrow> Inr (c # s, rest))"

text \<open>
  \<open>scanstring\<close> (strict mode), from behind the opening quote: the string and the input
  behind the closing quote. A high surrogate escape followed by a low surrogate escape
  is one code point; any other surrogate escape stays as it is.
\<close>

fun scanstring :: "pystr \<Rightarrow> py_error + (pystr \<times> pystr)" where
  "scanstring [] = Inl JSONDecodeError"
| "scanstring (c # cs) =
     (if c = 34 then Inr ([], cs)
      else if c = 92 then
        (case cs of
           [] \<Rightarrow> Inl JSONDecodeError
         | e # r \<Rightarrow>
             if e = 117 then
               (case hex4 r of
                  None \<Rightarrow> Inl JSONDecodeError
                | Some hi \<Rightarrow>
                    if 0xD800 \<le> hi \<and> hi \<le> 0xDBFF \<and> take 2 (drop 4 r) = [92, 117] \<and> length r > 10 then
                      (case hex4 (drop 6 r) of
                         None \<Rightarrow> Inl JSONDecodeError
                       | Some lo \<Rightarrow>
                           if 0xDC00 \<le> lo \<and> lo \<le> 0xDFFF
                           then cons_char (0x10000 + (hi mod 1024) * 1024 + lo mod 1024)
                                  (scanstring (drop 10 r))
                           else cons_char hi (scanstring (drop 4 r)))
                    else cons_char hi (scanstring (drop 4 r)))
             else
               (case unescape e of
                  None \<Rightarrow> Inl JSONDecodeError
                | Some x \<Rightarrow> cons_char x (scanstring r)))
      else if c < 32 then Inl JSONDecodeError
      else cons_char c (scanstring cs))"

fun int_of_digits :: "pystr \<Rightarrow> nat \<Rightarrow> nat" where
  "int_of_digits [] acc = acc"
| "int_of_digits (d # ds) acc = int_of_digits ds (acc * 10 + (d - 48))"

definition has_frac :: "pystr \<Rightarrow> bool" where
  "has_frac s = (case s of p # d # _ \<Rightarrow> p = 46 \<and> is_digit d | _ \<Rightarrow> False)"

definition has_exp :: "pystr \<Rightarrow> bool" where
  "has_exp s =
     (case s of
        e # t \<Rightarrow>
          (e = 101 \<or> e = 69) \<and>
          (case t of
             [] \<Rightarrow> False
           | [d] \<Rightarrow> is_digit d
           | x # d # _ \<Rightarrow> if x = 43 \<or> x = 45 then is_digit d else is_digit x)
      | [] \<Rightarrow> False)"

text \<open>\<open>_match_number\<close>: an optional sign, then \<open>0\<close> or a digit string without leading zero.\<close>

definition match_number :: "pystr \<Rightarrow> py_error + (json \<times> pystr)" where
  "match_number s =
     (let neg = (take 1 s = [45]);
          s1 = (if neg then drop 1 s else s)
      in case s1 of
           [] \<Rightarrow> Inl JSONDecodeError
         | d # t \<Rightarrow>
             if 49 \<le> d \<and> d \<le> 57 \<or> d = 48 then
               (let ds = (if d = 48 then [d] else d # takeWhile is_digit t);
                    r = (if d = 48 then t else dropWhile is_digit t);
                    n = int (int_of_digits ds 0)
                in if has_frac r \<or> has_exp r then Inl FloatUnmodelled
                   else Inr (JInt (if neg then - n else n), r))
             else Inl JSONDecodeError)"

text \<open>
  \<open>scan_once\<close>, the loop of \<open>_parse_array\<close> (positioned at the next item) and the loop
  of \<open>_parse_object\<close> (positioned at the next key). The first argument bounds the calls:
  \<open>json_loads\<close> starts with more than twice the length of the input, every call consumes
  input, and \<open>ScannerFuel\<close> is never the result (\<open>json_loads_fuel\<close> below).
  \<open>PyDict_SetItem\<close> keeps the place of a repeated key and takes the last value.
\<close>

type_synonym scan_result = "py_error + (json \<times> pystr)"

fun scan_once :: "nat \<Rightarrow> pystr \<Rightarrow> scan_result"
  and parse_array :: "nat \<Rightarrow> json list \<Rightarrow> pystr \<Rightarrow> scan_result"
  and parse_object :: "nat \<Rightarrow> pydict \<Rightarrow> pystr \<Rightarrow> scan_result"
where
  "scan_once 0 s = Inl ScannerFuel"
| "scan_once (Suc n) s =
     (case s of
        [] \<Rightarrow> Inl JSONDecodeError
      | c # cs \<Rightarrow>
          if c = 34 then
            (case scanstring cs of Inl e \<Rightarrow> Inl e | Inr (str, rest) \<Rightarrow> Inr (JStr str, rest))
          else if c = 123 then
            (let s1 = skip_ws cs
             in if take 1 s1 = [125] then Inr (JDict [], drop 1 s1)
                else parse_object n [] s1)
          else if c = 91 then
            (let s1 = skip_ws cs
             in if take 1 s1 = [93] then Inr (JList [], drop 1 s1)
                else parse_array n [] s1)
          else if take 4 s = ustr ''null'' then Inr (JNull, drop 4 s)
          else if take 4 s = ustr ''true'' then Inr (JBool True, drop 4 s)
          else if take 5 s = ustr ''false'' then Inr (JBool False, drop 5 s)
          else if take 3 s = ustr ''NaN'' \<or> take 8 s = ustr ''Infinity''
                  \<or> take 9 s = ustr ''-Infinity'' then Inl FloatUnmodelled
          else match_number s)"
| "parse_array 0 acc s = Inl ScannerFuel"
| "parse_array (Suc n) acc s =
     (case scan_once n s of
        Inl e \<Rightarrow> Inl e
      | Inr (v, rest) \<Rightarrow>
          (let s1 = skip_ws rest
           in if take 1 s1 = [93] then Inr (JList (acc @ [v]), drop 1 s1)
              else if take 1 s1 = [44] then parse_array n (acc @ [v]) (skip_ws (drop 1 s1))
              else Inl JSONDecodeError))"
| "parse_object 0 acc s = Inl ScannerFuel"
| "parse_object (Suc n) acc s =
     (if take 1 s \<noteq> [34] then Inl JSONDecodeError
      else
        (case scanstring (drop 1 s) of
           Inl e \<Rightarrow> Inl e
         | Inr (key, rest) \<Rightarrow>
             (let s1 = skip_ws rest
              in if take 1 s1 \<noteq> [58] then Inl JSONDecodeError
                 else
                   (case scan_once n (skip_ws (drop 1 s1)) of
                      Inl e \<Rightarrow> Inl e
                    | Inr (v, rest2) \<Rightarrow>
                        (let s2 = skip_ws rest2
                         in if take 1 s2 = [125] then Inr (JDict (dict_set acc key v), drop 1 s2)
                            else if take 1 s2 = [44]
                            then parse_object n (dict_set acc key v) (skip_ws (drop 1 s2))
                            else Inl JSONDecodeError)))))"

text \<open>
  \<open>json.loads(s)\<close>: a leading byte order mark is refused, white space around the value
  is skipped, anything else behind the value is an error.
\<close>

definition json_loads :: "pystr \<Rightarrow> py_error + json" where
  "json_loads s =
     (if take 1 s = [0xFEFF] then Inl JSONDecodeError
      else
        (case scan_once (Suc (2 * length s)) (skip_ws s) of
           Inl e \<Rightarrow> Inl e
         | Inr (v, rest) \<Rightarrow> if skip_ws rest = [] then Inr v else Inl JSONDecodeError))"

subsection \<open>Equality of values\<close>

text \<open>
  Python's \<open>==\<close> on JSON values: \<open>True == 1\<close> and \<open>False == 0\<close>; two lists are equal
  item by item; two dicts are equal when they have the same number of keys and every
  key of the first has an equal value in the second, whatever the order.
\<close>

fun py_eq :: "json \<Rightarrow> json \<Rightarrow> bool"
  and py_eq_list :: "json list \<Rightarrow> json list \<Rightarrow> bool"
  and py_eq_dict :: "(pystr \<times> json) list \<Rightarrow> (pystr \<times> json) list \<Rightarrow> bool"
where
  "py_eq JNull w = (w = JNull)"
| "py_eq (JBool a) w =
     (case w of JBool b \<Rightarrow> a = b | JInt n \<Rightarrow> (if a then 1 else 0) = n | _ \<Rightarrow> False)"
| "py_eq (JInt m) w =
     (case w of JInt n \<Rightarrow> m = n | JBool b \<Rightarrow> m = (if b then 1 else 0) | _ \<Rightarrow> False)"
| "py_eq (JStr s) w = (w = JStr s)"
| "py_eq (JList xs) w = (case w of JList ys \<Rightarrow> py_eq_list xs ys | _ \<Rightarrow> False)"
| "py_eq (JDict a) w = (case w of JDict b \<Rightarrow> length a = length b \<and> py_eq_dict a b | _ \<Rightarrow> False)"
| "py_eq_list [] ys = (ys = [])"
| "py_eq_list (x # xs) ys = (case ys of [] \<Rightarrow> False | y # ys' \<Rightarrow> py_eq x y \<and> py_eq_list xs ys')"
| "py_eq_dict [] b = True"
| "py_eq_dict ((k, v) # a) b =
     ((case dict_get b k of None \<Rightarrow> False | Some w \<Rightarrow> py_eq v w) \<and> py_eq_dict a b)"

section \<open>dump\_leveldb\_to\_json.py\<close>

text \<open>\<open>_encode_bytes\<close> and \<open>_coerce_value\<close>.\<close>

definition encode_bytes :: "bytes \<Rightarrow> json" where
  "encode_bytes raw =
     (case utf8_decode raw of
        Some text \<Rightarrow> JStr text
      | None \<Rightarrow> JDict [(ustr ''base64'', JStr (b64encode raw))])"

definition coerce_value :: "bytes \<Rightarrow> bool \<Rightarrow> py_error + json" where
  "coerce_value raw parse_json_values =
     (case encode_bytes raw of
        JStr encoded \<Rightarrow>
          if \<not> parse_json_values then Inr (JStr encoded)
          else (case json_loads encoded of
                  Inr v \<Rightarrow> Inr v
                | Inl JSONDecodeError \<Rightarrow> Inr (JStr encoded)
                | Inl e \<Rightarrow> Inl e)
      | encoded \<Rightarrow> Inr encoded)"

text \<open>\<open>_parse_key_parts\<close>: root entry, id and full key of a key like \<open>!journal!abc123\<close>.\<close>

definition parse_key_parts :: "bytes \<Rightarrow> pystr \<times> pystr \<times> pystr" where
  "parse_key_parts raw =
     (case utf8_decode raw of
        None \<Rightarrow> (ustr ''binary'', [], [])
      | Some text \<Rightarrow>
          (let parts = split_on 33 text
           in if take 1 text = [33] \<and> length parts \<ge> 3 \<and> parts ! 1 \<noteq> []
              then (parts ! 1, parts ! 2, text)
              else (ustr ''misc'', text, text)))"

definition safe_name :: "cpython \<Rightarrow> pystr \<Rightarrow> pystr" where
  "safe_name E name =
     (let cleaned = map (\<lambda>ch. if py_isalnum E ch \<or> ch = 45 \<or> ch = 95 then ch else 95) (py_strip name);
          stripped = strip_where (\<lambda>c. c = 95) cleaned
      in if stripped = [] then ustr ''unnamed'' else stripped)"

text \<open>A \<open>Path\<close> is the list of its parts; \<open>p / name\<close> appends a part.\<close>

type_synonym path = "pystr list"

type_synonym folder_index = "(pystr \<times> pydict) list"
type_synonym folder_memo = "(pystr \<times> path) list"

text \<open>
  \<open>_compute_folder_path\<close> recurses on the parent before it writes the memo, so it need
  not return: not returning is the value \<open>None\<close> of the outer option. The inner option
  is Python's \<open>Optional[Path]\<close>; the memo is returned updated.
\<close>

partial_function (option) compute_folder_path ::
  "cpython \<Rightarrow> pystr \<Rightarrow> folder_index \<Rightarrow> folder_memo \<Rightarrow> (path option \<times> folder_memo) option"
where
  "compute_folder_path E folder_id folder_by_id memo =
     (case dict_get memo folder_id of
        Some p \<Rightarrow> Some (Some p, memo)
      | None \<Rightarrow>
         (case dict_get folder_by_id folder_id of
            None \<Rightarrow> Some (None, memo)
          | Some folder \<Rightarrow>
              if folder = [] then Some (None, memo)
              else
                let name = safe_name E (py_str E (case dict_get folder (ustr ''name'') of
                                                     None \<Rightarrow> JStr folder_id | Some n \<Rightarrow> n));
                    parent_id = dict_get folder (ustr ''folder'')
                in (case parent_id of
                      Some (JStr pid) \<Rightarrow>
                        if pid \<noteq> [] \<and> dict_has folder_by_id pid \<and> pid \<noteq> folder_id then
                          Option.bind (compute_folder_path E pid folder_by_id memo)
                            (\<lambda>(parent, memo').
                               case parent of
                                 None \<Rightarrow> Some (Some [name], dict_set memo' folder_id [name])
                               | Some pp \<Rightarrow> Some (Some (pp @ [name]), dict_set memo' folder_id (pp @ [name])))
                        else Some (Some [name], dict_set memo folder_id [name])
                    | _ \<Rightarrow> Some (Some [name], dict_set memo folder_id [name]))))"

text \<open>\<open>_record_title\<close> of the dump: the first of name, title, label, \_id that is a non-blank str.\<close>

fun first_title :: "pydict \<Rightarrow> pystr list \<Rightarrow> pystr option" where
  "first_title d [] = None"
| "first_title d (field # others) =
     (case dict_get d field of
        Some (JStr current) \<Rightarrow> if py_strip current \<noteq> [] then Some current else first_title d others
      | _ \<Rightarrow> first_title d others)"

definition title_fields :: "pystr list" where
  "title_fields = [ustr ''name'', ustr ''title'', ustr ''label'', ustr ''_id'']"

definition title_of :: "json \<Rightarrow> pystr option" where
  "title_of v = (case v of JDict d \<Rightarrow> first_title d title_fields | _ \<Rightarrow> None)"

definition record_title :: "cpython \<Rightarrow> json \<Rightarrow> pystr \<Rightarrow> pystr" where
  "record_title E v fallback =
     (case title_of v of Some current \<Rightarrow> safe_name E current | None \<Rightarrow> safe_name E fallback)"

text \<open>A record of \<open>_extract_records\<close>; the key of an undecodable store key is its base64 wrapper.\<close>

record rec =
  rec_root :: pystr
  rec_id :: pystr
  rec_key :: json
  rec_value :: json

definition extract_record :: "cpython \<Rightarrow> bool \<Rightarrow> bytes \<times> bytes \<Rightarrow> py_error + rec" where
  "extract_record E parse_json_values entry =
     (case parse_key_parts (fst entry) of
        (root_entry, doc_id, key_text) \<Rightarrow>
          (case coerce_value (snd entry) parse_json_values of
             Inl e \<Rightarrow> Inl e
           | Inr v \<Rightarrow>
               Inr \<lparr>rec_root = safe_name E root_entry, rec_id = doc_id,
                    rec_key = (if key_text \<noteq> [] then JStr key_text else encode_bytes (fst entry)),
                    rec_value = v\<rparr>))"

fun extract_records :: "cpython \<Rightarrow> bool \<Rightarrow> (bytes \<times> bytes) list \<Rightarrow> py_error + rec list" where
  "extract_records E p [] = Inr []"
| "extract_records E p (entry # entries) =
     (case extract_record E p entry of
        Inl e \<Rightarrow> Inl e
      | Inr r \<Rightarrow> (case extract_records E p entries of Inl e \<Rightarrow> Inl e | Inr rs \<Rightarrow> Inr (r # rs)))"

text \<open>\<open>_folder_payload\<close> and \<open>_build_folder_index\<close>.\<close>

definition folder_payload :: "rec \<Rightarrow> pydict option" where
  "folder_payload r = (case rec_value r of JDict d \<Rightarrow> Some d | _ \<Rightarrow> None)"

fun build_folder_index :: "cpython \<Rightarrow> folder_index \<Rightarrow> rec list \<Rightarrow> folder_index" where
  "build_folder_index E folder_by_id [] = folder_by_id"
| "build_folder_index E folder_by_id (r # rs) =
     (case folder_payload r of
        None \<Rightarrow> build_folder_index E folder_by_id rs
      | Some payload \<Rightarrow>
          if payload = [] then build_folder_index E folder_by_id rs
          else
            (let own = (case dict_get payload (ustr ''_id'') of
                          Some v \<Rightarrow> if py_truthy v then py_str E v else rec_id r
                        | None \<Rightarrow> rec_id r);
                 folder_id = py_strip own
             in if folder_id \<noteq> []
                then build_folder_index E (dict_set folder_by_id folder_id payload) rs
                else build_folder_index E folder_by_id rs))"

text \<open>
  \<open>_place_records\<close>. First every folder of the index is resolved, in the order of the
  sorted ids; then each record gets its relative path. \<open>record_dest\<close> is the body of the
  second loop: the path of the record and the memo after it.
\<close>

definition get_or_null :: "pydict \<Rightarrow> pystr \<Rightarrow> json" where
  "get_or_null d k = (case dict_get d k of None \<Rightarrow> JNull | Some v \<Rightarrow> v)"

fun folder_manifest_loop ::
  "cpython \<Rightarrow> folder_index \<Rightarrow> folder_memo \<Rightarrow> (pystr \<times> pydict) list \<Rightarrow> (json list \<times> folder_memo) option"
where
  "folder_manifest_loop E folder_by_id memo [] = Some ([], memo)"
| "folder_manifest_loop E folder_by_id memo ((folder_id, payload) # items) =
     Option.bind (compute_folder_path E folder_id folder_by_id memo)
       (\<lambda>(rel_path, memo').
          Option.bind (folder_manifest_loop E folder_by_id memo' items)
            (\<lambda>(entries, memo'').
               case rel_path of
                 None \<Rightarrow> Some (entries, memo'')
               | Some p \<Rightarrow>
                   Some (JDict [(ustr ''id'', JStr folder_id),
                                (ustr ''name'', get_or_null payload (ustr ''name'')),
                                (ustr ''parent_id'', get_or_null payload (ustr ''folder'')),
                                (ustr ''path'', JStr (join_with 47 p)),
                                (ustr ''type'', get_or_null payload (ustr ''type''))] # entries,
                         memo'')))"

definition effective_id :: "rec \<Rightarrow> pystr" where
  "effective_id r = (let s = py_strip (rec_id r) in if s = [] then ustr ''unknown'' else s)"

definition file_name_of :: "cpython \<Rightarrow> rec \<Rightarrow> pystr" where
  "file_name_of E r =
     record_title E (rec_value r) (effective_id r) @ ustr ''__'' @ safe_name E (effective_id r)
       @ ustr ''.json''"

definition record_dest ::
  "cpython \<Rightarrow> folder_index \<Rightarrow> folder_memo \<Rightarrow> rec \<Rightarrow> (path \<times> folder_memo) option"
where
  "record_dest E folder_by_id memo r =
     (let root = rec_root r;
          file_name = file_name_of E r;
          plain = Some ([root, file_name], memo)
      in case rec_value r of
           JDict d \<Rightarrow>
             (case dict_get d (ustr ''folder'') of
                Some (JStr folder_id) \<Rightarrow>
                  if folder_id \<noteq> [] then
                    Option.bind (compute_folder_path E folder_id folder_by_id memo)
                      (\<lambda>(folder_rel, memo').
                         case folder_rel of
                           Some p \<Rightarrow> Some (ustr ''_tree'' # p @ [root, file_name], memo')
                         | None \<Rightarrow> Some ([root, file_name], memo'))
                  else plain
              | _ \<Rightarrow> plain)
         | _ \<Rightarrow> plain)"

text \<open>A manifest entry, with the path as \<open>Path\<close> and as the string the manifest stores.\<close>

record placed =
  p_key :: json
  p_root :: pystr
  p_id :: pystr
  p_path :: path
  p_value :: json

fun place_loop ::
  "cpython \<Rightarrow> folder_index \<Rightarrow> folder_memo \<Rightarrow> rec list \<Rightarrow> placed list option"
where
  "place_loop E folder_by_id memo [] = Some []"
| "place_loop E folder_by_id memo (r # rs) =
     Option.bind (record_dest E folder_by_id memo r)
       (\<lambda>(rel_path, memo').
          Option.bind (place_loop E folder_by_id memo' rs)
            (\<lambda>ps. Some (\<lparr>p_key = rec_key r, p_root = rec_root r, p_id = effective_id r,
                           p_path = rel_path, p_value = rec_value r\<rparr> # ps)))"

definition place_records :: "cpython \<Rightarrow> rec list \<Rightarrow> (json list \<times> placed list) option" where
  "place_records E records =
     (let folder_records = filter (\<lambda>r. rec_root r = ustr ''folders'') records;
          folder_by_id = build_folder_index E [] folder_records
      in Option.bind (folder_manifest_loop E folder_by_id [] (sort_key fst folder_by_id))
           (\<lambda>(folder_manifest, folder_paths).
              Option.bind (place_loop E folder_by_id folder_paths records)
                (\<lambda>manifest. Some (folder_manifest, manifest))))"

text \<open>The manifest as \<open>manifest.json\<close> holds it: key, root, id and \<open>str(rel_path)\<close>.\<close>

definition manifest_entry :: "placed \<Rightarrow> json" where
  "manifest_entry p =
     JDict [(ustr ''key'', p_key p), (ustr ''root'', JStr (p_root p)), (ustr ''id'', JStr (p_id p)),
            (ustr ''path'', JStr (join_with 47 (p_path p)))]"

section \<open>rebuild\_leveldb\_from\_json.py\<close>

subsection \<open>Files\<close>

text \<open>
  The output tree of one database, seen from its directory: what is at a path, if
  anything. \<open>Dir\<close> stands for anything that exists and cannot be read as a file.
  \<open>parse_path\<close> is \<open>Path(s)\<close> on a POSIX system: the parts between slashes, without
  the empty ones and the dots; a path that starts with a slash keeps the slash as its
  first part (it does not lie in the tree at all).
\<close>

datatype node = File bytes | Dir

type_synonym filesystem = "path \<Rightarrow> node option"

definition parse_path :: "pystr \<Rightarrow> path" where
  "parse_path s =
     (let slashes = length (takeWhile (\<lambda>c. c = 47) s);
          anchor = (if slashes = 2 then [[47, 47]] else if slashes \<ge> 1 then [[47]] else [])
      in anchor @ filter (\<lambda>p. p \<noteq> [] \<and> p \<noteq> [46]) (split_on 47 s))"

text \<open>Text mode reads \<open>\r\n\<close> and \<open>\r\<close> as \<open>\n\<close>.\<close>

fun universal_newlines :: "pystr \<Rightarrow> pystr" where
  "universal_newlines [] = []"
| "universal_newlines [c] = [if c = 13 then 10 else c]"
| "universal_newlines (c # d # r) =
     (if c = 13 \<and> d = 10 then 10 # universal_newlines r
      else if c = 13 then 10 # universal_newlines (d # r)
      else c # universal_newlines (d # r))"

definition read_json :: "filesystem \<Rightarrow> path \<Rightarrow> py_error + json" where
  "read_json fs p =
     (case fs p of
        None \<Rightarrow> Inl FileNotFoundError
      | Some Dir \<Rightarrow> Inl IsADirectoryError
      | Some (File raw) \<Rightarrow>
          (case utf8_decode raw of
             None \<Rightarrow> Inl UnicodeDecodeError
           | Some text \<Rightarrow> json_loads (universal_newlines text)))"

text \<open>
  \<open>_write_json\<close>: \<open>write_text\<close> opens the file, which empties it, and then encodes the
  text; the error, if any, comes with the file system as it is left.
\<close>

definition write_json :: "filesystem \<Rightarrow> path \<Rightarrow> json \<Rightarrow> py_error option \<times> filesystem" where
  "write_json fs p data =
     (if fs p = Some Dir then (Some IsADirectoryError, fs)
      else (case utf8_encode (json_dumps_indent 0 data) of
              None \<Rightarrow> (Some UnicodeEncodeError, fs(p \<mapsto> File []))
            | Some raw \<Rightarrow> (None, fs(p \<mapsto> File raw))))"

text \<open>\<open>name\<close>, \<open>stem\<close>, \<open>suffix\<close> and \<open>with_name\<close> of a path.\<close>

definition path_name :: "path \<Rightarrow> pystr" where
  "path_name p = (if p = [] then [] else last p)"

definition suffix_of :: "pystr \<Rightarrow> pystr" where
  "suffix_of name =
     (let tail = rev (takeWhile (\<lambda>c. c \<noteq> 46) (rev name))
      in if 46 \<in> set name \<and> tail \<noteq> [] \<and> length tail + 1 < length name then 46 # tail else [])"

definition path_suffix :: "path \<Rightarrow> pystr" where
  "path_suffix p = suffix_of (path_name p)"

definition path_stem :: "path \<Rightarrow> pystr" where
  "path_stem p = take (length (path_name p) - length (path_suffix p)) (path_name p)"

definition with_name :: "path \<Rightarrow> pystr \<Rightarrow> path" where
  "with_name p name = butlast p @ [name]"

subsection \<open>Values\<close>

text \<open>\<open>_record_title\<close> of the rebuild: the stripped field, not sanitized.\<close>

definition record_title_rebuild :: "json \<Rightarrow> pystr \<Rightarrow> pystr" where
  "record_title_rebuild v fallback =
     (case title_of v of Some current \<Rightarrow> py_strip current | None \<Rightarrow> fallback)"


definition looks_like_base64_wrapper :: "json \<Rightarrow> bool" where
  "looks_like_base64_wrapper v =
     (case v of
        JDict d \<Rightarrow>
          set (map fst d) = {ustr ''base64''}
          \<and> (case dict_get d (ustr ''base64'') of Some (JStr s) \<Rightarrow> True | _ \<Rightarrow> False)
      | _ \<Rightarrow> False)"

definition encode_utf8 :: "pystr \<Rightarrow> py_error + bytes" where
  "encode_utf8 s = (case utf8_encode s of None \<Rightarrow> Inl UnicodeEncodeError | Some raw \<Rightarrow> Inr raw)"

definition encode_value :: "json \<Rightarrow> py_error + bytes" where
  "encode_value v =
     (if looks_like_base64_wrapper v then
        (case v of
           JDict d \<Rightarrow> (case dict_get d (ustr ''base64'') of
                         Some (JStr s) \<Rightarrow> b64decode s
                       | _ \<Rightarrow> Inl ValueError)
         | _ \<Rightarrow> Inl ValueError)
      else (case v of
              JStr s \<Rightarrow> encode_utf8 s
            | _ \<Rightarrow> encode_utf8 (json_dumps v)))"


subsection \<open>Roots and ids\<close>

definition excluded_json_names :: "pystr set" where
  "excluded_json_names = {ustr ''full.json'', ustr ''folders.json'', ustr ''manifest.json''}"

definition infer_root_from_path :: "path \<Rightarrow> pystr option" where
  "infer_root_from_path parts =
     (if parts = [] then None
      else if hd parts = ustr ''_tree'' then
        (if length parts < 3 then None else Some (parts ! (length parts - 2)))
      else if take 1 (hd parts) = [95] then None
      else Some (hd parts))"

text \<open>
  The text behind the last \<open>__\<close> of a stem (\<open>stem.rsplit("__", 1)[-1]\<close>), if the stem
  has one.
\<close>

fun before_first_uu :: "pystr \<Rightarrow> pystr option" where
  "before_first_uu (a # b # r) =
     (if a = 95 \<and> b = 95 then Some [] else map_option ((#) a) (before_first_uu (b # r)))"
| "before_first_uu _ = None"

definition after_last_uu :: "pystr \<Rightarrow> pystr option" where
  "after_last_uu stem = map_option rev (before_first_uu (rev stem))"

definition infer_id :: "cpython \<Rightarrow> json \<Rightarrow> path \<Rightarrow> pystr" where
  "infer_id E v rel_path =
     (let from_name =
            (case after_last_uu (path_stem rel_path) of
               Some guessed \<Rightarrow> if guessed \<noteq> [] then guessed else safe_name E (path_stem rel_path)
             | None \<Rightarrow> safe_name E (path_stem rel_path))
      in case v of
           JDict d \<Rightarrow>
             (case dict_get d (ustr ''_id'') of
                Some (JStr vid) \<Rightarrow> if py_strip vid \<noteq> [] then py_strip vid else from_name
              | _ \<Rightarrow> from_name)
         | _ \<Rightarrow> from_name)"

definition filename_has_id :: "path \<Rightarrow> bool" where
  "filename_has_id rel_path =
     (case after_last_uu (path_stem rel_path) of Some guessed \<Rightarrow> guessed \<noteq> [] | None \<Rightarrow> False)"

definition extract_id_from_key :: "pystr \<Rightarrow> pystr option" where
  "extract_id_from_key k =
     (if take 1 k \<noteq> [33] then None
      else (let parts = split_on 33 k
            in if length parts < 3 then None
               else (let rec_id = py_strip (parts ! 2)
                     in if rec_id = [] then None else Some rec_id)))"

subsection \<open>Id allocation\<close>

text \<open>
  The random source is the sequence of numbers \<open>random.choice\<close> draws; the n-th call
  returns the letter at index \<open>rng n mod 62\<close>. \<open>_random_id\<close> draws sixteen letters and
  tries again while the candidate is in use: it returns the id and the position in the
  sequence, or does not return.
\<close>

definition alphabet :: pystr where
  "alphabet = ustr ''abcdefghijklmnopqrstuvwxyzABCDEFGHIJKLMNOPQRSTUVWXYZ0123456789''"

definition candidate :: "(nat \<Rightarrow> nat) \<Rightarrow> nat \<Rightarrow> pystr" where
  "candidate rng pos = map (\<lambda>j. alphabet ! (rng (pos + j) mod length alphabet)) [0..<16]"

partial_function (option) random_id :: "(nat \<Rightarrow> nat) \<Rightarrow> nat \<Rightarrow> pystr set \<Rightarrow> (pystr \<times> nat) option"
where
  "random_id rng pos used_ids =
     (if candidate rng pos \<notin> used_ids then Some (candidate rng pos, pos + 16)
      else random_id rng (pos + 16) used_ids)"

definition before_last_dot :: "pystr \<Rightarrow> pystr" where
  "before_last_dot s = rev (drop 1 (dropWhile (\<lambda>c. c \<noteq> 46) (rev s)))"

definition replace_compendium_source_id :: "pydict \<Rightarrow> pystr \<Rightarrow> pydict" where
  "replace_compendium_source_id stats new_id =
     (case dict_get stats (ustr ''compendiumSource'') of
        Some (JStr source) \<Rightarrow>
          if source = [] then stats
          else if 46 \<in> set source
          then dict_set stats (ustr ''compendiumSource'') (JStr (before_last_dot source @ 46 # new_id))
          else dict_set stats (ustr ''compendiumSource'') (JStr new_id)
      | _ \<Rightarrow> stats)"

subsection \<open>Known records\<close>

datatype log_line =
    SkippingMissing path
  | AppendedId pystr
  | CreatedId pystr

text \<open>\<open>_load_manifest\<close>: the current shape, the bare list of older dumps, or nothing.\<close>

definition dicts_of :: "json list \<Rightarrow> pydict list" where
  "dicts_of xs = concat (map (\<lambda>x. case x of JDict d \<Rightarrow> [d] | _ \<Rightarrow> []) xs)"

definition load_manifest :: "filesystem \<Rightarrow> py_error + (pydict list \<times> pydict)" where
  "load_manifest fs =
     (if fs [ustr ''manifest.json''] = None then Inr ([], [])
      else (case read_json fs [ustr ''manifest.json''] of
              Inl e \<Rightarrow> Inl e
            | Inr (JList xs) \<Rightarrow> Inr (dicts_of xs, [])
            | Inr (JDict d) \<Rightarrow>
                Inr (dicts_of (case dict_get d (ustr ''records'') of Some (JList xs) \<Rightarrow> xs | _ \<Rightarrow> []),
                     (case dict_get d (ustr ''leveldb_meta'') of Some (JDict m) \<Rightarrow> m | _ \<Rightarrow> []))
            | Inr _ \<Rightarrow> Inr ([], [])))"

text \<open>
  \<open>_build_known_records\<close>: the records and the lines printed. An error of a later
  entry is the result of the whole call.
\<close>

fun build_known_records ::
  "filesystem \<Rightarrow> pydict list \<Rightarrow> py_error + ((pystr \<times> bytes) list \<times> log_line list)"
where
  "build_known_records fs [] = Inr ([], [])"
| "build_known_records fs (item # items) =
     (case (dict_get item (ustr ''key''), dict_get item (ustr ''path'')) of
        (Some (JStr k), Some (JStr rel_path)) \<Rightarrow>
          if fs (parse_path rel_path) = None then
            (case build_known_records fs items of
               Inl e \<Rightarrow> Inl e
             | Inr (records, out) \<Rightarrow> Inr (records, SkippingMissing (parse_path rel_path) # out))
          else
            (case read_json fs (parse_path rel_path) of
               Inl e \<Rightarrow> Inl e
             | Inr v \<Rightarrow>
                 (case encode_value v of
                    Inl e \<Rightarrow> Inl e
                  | Inr raw \<Rightarrow>
                      (case build_known_records fs items of
                         Inl e \<Rightarrow> Inl e
                       | Inr (records, out) \<Rightarrow> Inr ((k, raw) # records, out))))
      | _ \<Rightarrow> build_known_records fs items)"

subsection \<open>New records\<close>

text \<open>
  \<open>_record_files_for_new_entries\<close>, from the paths \<open>rglob("*.json")\<close> found, relative to
  the directory of the database.
\<close>

definition record_files_for_new_entries :: "path list \<Rightarrow> pystr set \<Rightarrow> path list" where
  "record_files_for_new_entries globbed known_paths =
     filter (\<lambda>rel. \<not> length rel \<le> 1
                  \<and> path_name rel \<notin> excluded_json_names
                  \<and> join_with 47 rel \<notin> known_paths
                  \<and> infer_root_from_path rel \<noteq> None \<and> infer_root_from_path rel \<noteq> Some [])
       (sort globbed)"

text \<open>
  The state of one pass of \<open>_build_new_records\<close>: the files, the ids in use, the place in
  the random sequence, the records and the printed lines so far, and the exception that
  ended the pass, if any. \<open>st_allocated\<close> is not a variable of the code: it lists the ids
  \<open>_random_id\<close> returned, in order, so that statements can speak of them.
\<close>

record pass =
  st_fs :: filesystem
  st_used :: "pystr set"
  st_pos :: nat
  st_allocated :: "pystr list"
  st_records :: "(pystr \<times> bytes) list"
  st_log :: "log_line list"
  st_raised :: "py_error option"

definition allocate :: "(nat \<Rightarrow> nat) \<Rightarrow> pass \<Rightarrow> (pystr \<times> pass) option" where
  "allocate rng st =
     map_option (\<lambda>(new_id, pos'). (new_id, st\<lparr>st_pos := pos', st_allocated := st_allocated st @ [new_id]\<rparr>))
       (random_id rng (st_pos st) (st_used st))"

text \<open>The three lines that stamp an id on a value and on its compendium source.\<close>

definition stamp_id :: "pydict \<Rightarrow> pystr \<Rightarrow> pydict" where
  "stamp_id d new_id =
     (let d1 = dict_set d (ustr ''_id'') (JStr new_id)
      in case dict_get d1 (ustr ''_stats'') of
           Some (JDict stats) \<Rightarrow>
             dict_set d1 (ustr ''_stats'') (JDict (replace_compendium_source_id stats new_id))
         | _ \<Rightarrow> d1)"

text \<open>
  The file name gets an id when it has none: the new state, the path after the rename
  and the id that was generated.
\<close>

definition rename_step ::
  "(nat \<Rightarrow> nat) \<Rightarrow> pass \<Rightarrow> path \<Rightarrow> json \<Rightarrow> (pass \<times> path \<times> pystr option) option"
where
  "rename_step rng st rel v =
     (if filename_has_id rel then Some (st, rel, None)
      else
        Option.bind (allocate rng st)
          (\<lambda>(generated_id, st1).
             let st2 = st1\<lparr>st_used := insert generated_id (st_used st1)\<rparr>;
                 new_rel = with_name rel (path_stem rel @ ustr ''__'' @ generated_id @ path_suffix rel)
             in if st_fs st2 new_rel = Some Dir
                then Some (st2\<lparr>st_raised := Some IsADirectoryError\<rparr>, rel, Some generated_id)
                else Some (st2\<lparr>st_fs := (st_fs st2)(rel := None, new_rel := st_fs st2 rel),
                               st_log := st_log st2
                                 @ [AppendedId (record_title_rebuild v (path_stem new_rel))]\<rparr>,
                           new_rel, Some generated_id)))"

text \<open>A dict value gets the generated id, or a new one when its own is missing or blank.\<close>

definition stamp_step ::
  "(nat \<Rightarrow> nat) \<Rightarrow> pass \<Rightarrow> path \<Rightarrow> json \<Rightarrow> pystr option \<Rightarrow> (pass \<times> json \<times> bool) option"
where
  "stamp_step rng st rel v generated_id =
     (case v of
        JDict d \<Rightarrow>
          (let d1 = (case generated_id of Some g \<Rightarrow> stamp_id d g | None \<Rightarrow> d);
               blank = (case dict_get d1 (ustr ''_id'') of
                          Some (JStr current_id) \<Rightarrow> py_strip current_id = []
                        | _ \<Rightarrow> True)
           in if blank then
                Option.bind (allocate rng st)
                  (\<lambda>(created_id, st1).
                     let d2 = stamp_id d1 created_id
                     in Some (st1\<lparr>st_log := st_log st1
                                    @ [CreatedId (record_title_rebuild (JDict d2) (path_stem rel))],
                                  st_used := insert created_id (st_used st1)\<rparr>,
                              JDict d2, True))
              else Some (st, JDict d1, generated_id \<noteq> None))
      | _ \<Rightarrow> Some (st, v, False))"

text \<open>The value is written back when it or its file name changed; then the record is added.\<close>

definition finish_step :: "cpython \<Rightarrow> pass \<Rightarrow> pystr \<Rightarrow> path \<Rightarrow> json \<Rightarrow> bool \<Rightarrow> pass" where
  "finish_step E st root rel v changed =
     (let (err, fs1) = (if changed then write_json (st_fs st) rel v else (None, st_fs st));
          st1 = st\<lparr>st_fs := fs1\<rparr>
      in if err \<noteq> None then st1\<lparr>st_raised := err\<rparr>
         else
           (let rec_id = infer_id E v rel;
                st2 = st1\<lparr>st_used := insert rec_id (st_used st1)\<rparr>;
                k = 33 # root @ 33 # rec_id
            in case encode_value v of
                 Inl e \<Rightarrow> st2\<lparr>st_raised := Some e\<rparr>
               | Inr raw \<Rightarrow> st2\<lparr>st_records := st_records st2 @ [(k, raw)]\<rparr>))"

text \<open>The body of the loop of \<open>_build_new_records\<close> for one file.\<close>

definition process_new_file :: "cpython \<Rightarrow> (nat \<Rightarrow> nat) \<Rightarrow> pass \<Rightarrow> path \<Rightarrow> pass option" where
  "process_new_file E rng st rel =
     (case read_json (st_fs st) rel of
        Inl e \<Rightarrow> Some (st\<lparr>st_raised := Some e\<rparr>)
      | Inr v \<Rightarrow>
          (case infer_root_from_path rel of
             None \<Rightarrow> Some st
           | Some root \<Rightarrow>
               if root = [] then Some st
               else
                 Option.bind (rename_step rng st rel v)
                   (\<lambda>(st1, rel1, generated_id).
                      if st_raised st1 \<noteq> None then Some st1
                      else
                        Option.bind (stamp_step rng st1 rel1 v (if filename_has_id rel then None else generated_id))
                          (\<lambda>(st2, v2, changed).
                             Some (finish_step E st2 root rel1 v2 (changed \<or> generated_id \<noteq> None))))))"

fun new_records_loop :: "cpython \<Rightarrow> (nat \<Rightarrow> nat) \<Rightarrow> pass \<Rightarrow> path list \<Rightarrow> pass option" where
  "new_records_loop E rng st [] = Some st"
| "new_records_loop E rng st (rel # rels) =
     (if st_raised st \<noteq> None then Some st
      else Option.bind (process_new_file E rng st rel) (\<lambda>st'. new_records_loop E rng st' rels))"

definition build_new_records ::
  "cpython \<Rightarrow> (nat \<Rightarrow> nat) \<Rightarrow> nat \<Rightarrow> filesystem \<Rightarrow> path list \<Rightarrow> pystr set \<Rightarrow> pystr set \<Rightarrow> pass option"
where
  "build_new_records E rng pos fs globbed known_paths used_ids =
     new_records_loop E rng
       \<lparr>st_fs = fs, st_used = used_ids, st_pos = pos, st_allocated = [], st_records = [],
        st_log = [], st_raised = None\<rparr>
       (record_files_for_new_entries globbed known_paths)"

subsection \<open>One database of rebuild\_all\<close>

definition known_paths_of :: "pydict list \<Rightarrow> pystr set" where
  "known_paths_of manifest =
     {p. \<exists>item \<in> set manifest. dict_get item (ustr ''path'') = Some (JStr p)}"

definition used_ids_of :: "pydict list \<Rightarrow> pystr set" where
  "used_ids_of manifest =
     {i. \<exists>item \<in> set manifest. \<exists>k. dict_get item (ustr ''key'') = Some (JStr k)
                                    \<and> extract_id_from_key k = Some i}"

text \<open>The merge: known records first, then new records; a later value replaces an earlier one.\<close>

fun put_all :: "(pystr \<times> bytes) list \<Rightarrow> (pystr \<times> bytes) list \<Rightarrow> (pystr \<times> bytes) list" where
  "put_all merged [] = merged"
| "put_all merged ((k, v) # records) = put_all (dict_set merged k v) records"

definition merge_records ::
  "(pystr \<times> bytes) list \<Rightarrow> (pystr \<times> bytes) list \<Rightarrow> (pystr \<times> bytes) list"
where
  "merge_records known_records new_records = put_all (put_all [] known_records) new_records"

text \<open>What the writer is given: each key of the merge, encoded, with its value.\<close>

fun writer_puts :: "(pystr \<times> bytes) list \<Rightarrow> py_error + (bytes \<times> bytes) list" where
  "writer_puts [] = Inr []"
| "writer_puts ((k, v) # merged) =
     (case encode_utf8 k of
        Inl e \<Rightarrow> Inl e
      | Inr kb \<Rightarrow> (case writer_puts merged of Inl e \<Rightarrow> Inl e | Inr puts \<Rightarrow> Inr ((kb, v) # puts)))"

definition rebuild_db ::
  "cpython \<Rightarrow> (nat \<Rightarrow> nat) \<Rightarrow> nat \<Rightarrow> filesystem \<Rightarrow> path list \<Rightarrow> (py_error + (bytes \<times> bytes) list) option"
where
  "rebuild_db E rng pos fs globbed =
     (case load_manifest fs of
        Inl e \<Rightarrow> Some (Inl e)
      | Inr (manifest, leveldb_meta) \<Rightarrow>
          (case build_known_records fs manifest of
             Inl e \<Rightarrow> Some (Inl e)
           | Inr (known_records, out) \<Rightarrow>
               Option.bind
                 (build_new_records E rng pos fs globbed (known_paths_of manifest) (used_ids_of manifest))
                 (\<lambda>st. case st_raised st of
                         Some e \<Rightarrow> Some (Inl e)
                       | None \<Rightarrow> Some (writer_puts (merge_records known_records (st_records st))))))"

section \<open>Notions used in the statements\<close>



text \<open>The memo of one dump only holds ids of the index: it starts empty.\<close>

definition memo_within :: "folder_index \<Rightarrow> folder_memo \<Rightarrow> bool" where
  "memo_within idx memo = (\<forall>k. dict_get memo k \<noteq> None \<longrightarrow> dict_get idx k \<noteq> None)"


text \<open>
  A manifest entry with a str key and a str path names a file; \<open>known_record\<close> is the
  record of an entry whose file reads as JSON and encodes, \<open>missing_file\<close> the path of
  an entry whose file does not exist. \<open>entry_ok\<close>: the file of the entry is missing, or
  it reads and encodes.
\<close>

definition entry_target :: "pydict \<Rightarrow> (pystr \<times> path) option" where
  "entry_target item =
     (case (dict_get item (ustr ''key''), dict_get item (ustr ''path'')) of
        (Some (JStr k), Some (JStr p)) \<Rightarrow> Some (k, parse_path p)
      | _ \<Rightarrow> None)"

definition known_record :: "filesystem \<Rightarrow> pydict \<Rightarrow> (pystr \<times> bytes) option" where
  "known_record fs item =
     (case entry_target item of
        Some (k, p) \<Rightarrow>
          (case read_json fs p of
             Inr v \<Rightarrow> (case encode_value v of Inr raw \<Rightarrow> Some (k, raw) | Inl e \<Rightarrow> None)
           | Inl e \<Rightarrow> None)
      | None \<Rightarrow> None)"

definition missing_file :: "filesystem \<Rightarrow> pydict \<Rightarrow> path option" where
  "missing_file fs item =
     (case entry_target item of
        Some (k, p) \<Rightarrow> if fs p = None then Some p else None
      | None \<Rightarrow> None)"









definition value_start :: "nat \<Rightarrow> bool" where
  "value_start c = (c = 34 \<or> c = 123 \<or> c = 91 \<or> c = 110 \<or> c = 116 \<or> c = 102 \<or> c = 45 \<or> is_digit c)"




subsection \<open>Concrete inputs\<close>

text \<open>Two folders that name each other as parent.\<close>

definition cyclic_index :: folder_index where
  "cyclic_index =
     [(ustr ''A'', [(ustr ''name'', JStr (ustr ''A'')), (ustr ''folder'', JStr (ustr ''B''))]),
      (ustr ''B'', [(ustr ''name'', JStr (ustr ''B'')), (ustr ''folder'', JStr (ustr ''A''))])]"


text \<open>
  A store with two keys of the same root and id, and two keys whose ids differ only in
  a character that \<open>_safe_name\<close> replaces.
\<close>

definition collide_store :: "(bytes \<times> bytes) list" where
  "collide_store =
     [(ustr ''!items!i1'', ustr ''{\"name\":\"Sword\"}''),
      (ustr ''!items!i1!x'', ustr ''{\"name\":\"Sword\"}''),
      (ustr ''!items!a.b'', ustr ''{\"name\":\"X\"}''),
      (ustr ''!items!a_b'', ustr ''{\"name\":\"X\"}'')]"

definition collide_records :: "rec list" where
  "collide_records =
     [\<lparr>rec_root = ustr ''items'', rec_id = ustr ''i1'', rec_key = JStr (ustr ''!items!i1''),
       rec_value = JDict [(ustr ''name'', JStr (ustr ''Sword''))]\<rparr>,
      \<lparr>rec_root = ustr ''items'', rec_id = ustr ''i1'', rec_key = JStr (ustr ''!items!i1!x''),
       rec_value = JDict [(ustr ''name'', JStr (ustr ''Sword''))]\<rparr>,
      \<lparr>rec_root = ustr ''items'', rec_id = ustr ''a.b'', rec_key = JStr (ustr ''!items!a.b''),
       rec_value = JDict [(ustr ''name'', JStr (ustr ''X''))]\<rparr>,
      \<lparr>rec_root = ustr ''items'', rec_id = ustr ''a_b'', rec_key = JStr (ustr ''!items!a_b''),
       rec_value = JDict [(ustr ''name'', JStr (ustr ''X''))]\<rparr>]"

text \<open>Two records of one root with the same name and different ids.\<close>

definition two_swords :: "rec list" where
  "two_swords =
     [\<lparr>rec_root = ustr ''items'', rec_id = ustr ''i1'', rec_key = JStr (ustr ''!items!i1''),
       rec_value = JDict [(ustr ''name'', JStr (ustr ''Sword''))]\<rparr>,
      \<lparr>rec_root = ustr ''items'', rec_id = ustr ''i2'', rec_key = JStr (ustr ''!items!i2''),
       rec_value = JDict [(ustr ''name'', JStr (ustr ''Sword''))]\<rparr>]"

definition two_swords_placed :: "placed list" where
  "two_swords_placed =
     [\<lparr>p_key = JStr (ustr ''!items!i1''), p_root = ustr ''items'', p_id = ustr ''i1'',
       p_path = [ustr ''items'', ustr ''Sword__i1.json''],
       p_value = JDict [(ustr ''name'', JStr (ustr ''Sword''))]\<rparr>,
      \<lparr>p_key = JStr (ustr ''!items!i2''), p_root = ustr ''items'', p_id = ustr ''i2'',
       p_path = [ustr ''items'', ustr ''Sword__i2.json''],
       p_value = JDict [(ustr ''name'', JStr (ustr ''Sword''))]\<rparr>]"







section \<open>Running the model\<close>

text \<open>The equations the simplifier needs to run the scanner and the string functions.\<close>

lemmas scan_num =
  scan_once.simps(2)[of "pred_numeral k" for k, folded numeral_eq_Suc]
  parse_array.simps(2)[of "pred_numeral k" for k, folded numeral_eq_Suc]
  parse_object.simps(2)[of "pred_numeral k" for k, folded numeral_eq_Suc]

lemmas json_ev =
  json_loads_def skip_ws_def is_ws_def cons_char_def unescape_def scan_num Let_def
  match_number_def is_digit_def has_frac_def has_exp_def hex4_def hex_val_def

lemmas strip_ev =
  safe_name_def py_strip_def strip_where_def py_isspace_def py_isalnum_def Let_def

lemma dict_get_set: "dict_get (dict_set d k v) k' = (if k' = k then Some v else dict_get d k')"
  by (induction d) auto

lemmas b64_ev = b64decode_def b64_val_def b64_chr_def

lemmas utf8_ev = encode_utf8_def utf8_encode_char_def is_cont_def







section \<open>Folder paths\<close>





text \<open>Resolving a folder keeps the memo within the index.\<close>

lemma cfp_memo_within:
  assumes "compute_folder_path E i idx memo = Some y"
  shows "memo_within idx memo \<longrightarrow> memo_within idx (snd y)"
  using assms
proof (induction rule: compute_folder_path.raw_induct[rotated 1, consumes 1])
  case (1 f E i idx memo y)
  show ?case
  proof
    assume w: "memo_within idx memo"
    have ins: "\<And>m p. memo_within idx m \<Longrightarrow> dict_get idx i \<noteq> None \<Longrightarrow>
                 memo_within idx (dict_set m i p)"
      by (auto simp: memo_within_def dict_get_set)
    from "1.hyps" "1.IH" w show "memo_within idx (snd y)"
      by (fastforce simp: Let_def Option.bind_eq_Some_conv ins
            split: option.splits json.splits if_splits)
  qed
qed

text \<open>
  On the two folders of \<open>cyclic_index\<close> no call returns: each call for A needs the
  result of the call for B with the same memo, and the other way round.
\<close>

lemma cyclic_no_return:
  assumes "compute_folder_path E fid idx memo = Some r"
  shows "\<not> (idx = cyclic_index \<and> memo = [] \<and> (fid = ustr ''A'' \<or> fid = ustr ''B''))"
  using assms
proof (induction rule: compute_folder_path.raw_induct[rotated 1, consumes 1])
  case (1 f E fid idx memo r)
  show ?case
  proof
    assume h: "idx = cyclic_index \<and> memo = [] \<and> (fid = ustr ''A'' \<or> fid = ustr ''B'')"
    then consider "fid = ustr ''A''" | "fid = ustr ''B''" by blast
    then show False
    proof cases
      case 1
      have "f E (ustr ''B'') cyclic_index [] \<noteq> None"
      proof
        assume n: "f E (ustr ''B'') cyclic_index [] = None"
        from "1.hyps" h 1 n[unfolded cyclic_index_def] show False
          by (simp add: cyclic_index_def dict_has_def)
      qed
      then obtain r' where "f E (ustr ''B'') cyclic_index [] = Some r'" by blast
      from "1.IH"[OF this] show False by simp
    next
      case 2
      have "f E (ustr ''A'') cyclic_index [] \<noteq> None"
      proof
        assume n: "f E (ustr ''A'') cyclic_index [] = None"
        from "1.hyps" h 2 n[unfolded cyclic_index_def] show False
          by (simp add: cyclic_index_def dict_has_def)
      qed
      then obtain r' where "f E (ustr ''A'') cyclic_index [] = Some r'" by blast
      from "1.IH"[OF this] show False by simp
    qed
  qed
qed

text \<open>
  C2. Folder-path resolution is claimed to return for every folder index, also one with
  an indirect cycle. The code guards only a folder that is its own parent: on the index
  where A has parent B and B has parent A, the call for A does not return (in CPython
  the recursion ends in a \<open>RecursionError\<close>).
\<close>

theorem indirect_cycle_never_returns:
  "compute_folder_path E (ustr ''A'') cyclic_index [] = None"
  using cyclic_no_return[of E "ustr ''A''" cyclic_index "[]"]
  by (cases "compute_folder_path E (ustr ''A'') cyclic_index []") auto




section \<open>Record files\<close>

text \<open>The last part of a record's path is its file name, wherever the record is placed.\<close>

lemma place_loop_paths:
  "place_loop E idx memo rs = Some ps \<Longrightarrow>
   length ps = length rs \<and> (\<forall>i < length rs. last (p_path (ps ! i)) = file_name_of E (rs ! i))"
proof (induction rs arbitrary: memo ps)
  case Nil
  then show ?case by simp
next
  case (Cons r rs)
  from Cons.prems obtain rel memo' ps' where
    d: "record_dest E idx memo r = Some (rel, memo')"
    and l: "place_loop E idx memo' rs = Some ps'"
    and ps: "ps = \<lparr>p_key = rec_key r, p_root = rec_root r, p_id = effective_id r,
                   p_path = rel, p_value = rec_value r\<rparr> # ps'"
    by (auto simp: Option.bind_eq_Some_conv)
  from d have "last rel = file_name_of E r"
    by (auto simp: record_dest_def Let_def Option.bind_eq_Some_conv
          split: json.splits option.splits if_splits)
  with Cons.IH[OF l] ps show ?case
    by (auto simp: nth_Cons split: nat.splits)
qed

text \<open>
  C4 (amended). Two records of one dump that have the same title are written to
  different paths when their sanitized ids differ.
\<close>

theorem same_title_distinct_safe_ids:
  assumes "place_records E records = Some (folder_manifest, manifest)"
    and "i < length records" "j < length records"
    and "record_title E (rec_value (records ! i)) (effective_id (records ! i))
         = record_title E (rec_value (records ! j)) (effective_id (records ! j))"
    and "safe_name E (effective_id (records ! i)) \<noteq> safe_name E (effective_id (records ! j))"
  shows "p_path (manifest ! i) \<noteq> p_path (manifest ! j)"
proof -
  from assms(1) obtain idx memo where "place_loop E idx memo records = Some manifest"
    by (auto simp: place_records_def Let_def Option.bind_eq_Some_conv)
  from place_loop_paths[OF this] assms(2,3)
  have "last (p_path (manifest ! i)) = file_name_of E (records ! i)"
       "last (p_path (manifest ! j)) = file_name_of E (records ! j)"
    by auto
  moreover have "file_name_of E (records ! i) \<noteq> file_name_of E (records ! j)"
    using assms(4,5) by (simp add: file_name_of_def)
  ultimately show ?thesis by metis
qed

lemma collide_store_records:
  "extract_records ascii_only True collide_store = Inr collide_records"
  by (simp add: collide_store_def collide_records_def extract_record_def parse_key_parts_def
        coerce_value_def encode_bytes_def json_ev strip_ev ascii_only_def)

lemma collide_records_placed:
  "place_records ascii_only collide_records =
     Some ([],
       [\<lparr>p_key = JStr (ustr ''!items!i1''), p_root = ustr ''items'', p_id = ustr ''i1'',
         p_path = [ustr ''items'', ustr ''Sword__i1.json''],
         p_value = JDict [(ustr ''name'', JStr (ustr ''Sword''))]\<rparr>,
        \<lparr>p_key = JStr (ustr ''!items!i1!x''), p_root = ustr ''items'', p_id = ustr ''i1'',
         p_path = [ustr ''items'', ustr ''Sword__i1.json''],
         p_value = JDict [(ustr ''name'', JStr (ustr ''Sword''))]\<rparr>,
        \<lparr>p_key = JStr (ustr ''!items!a.b''), p_root = ustr ''items'', p_id = ustr ''a.b'',
         p_path = [ustr ''items'', ustr ''X__a_b.json''],
         p_value = JDict [(ustr ''name'', JStr (ustr ''X''))]\<rparr>,
        \<lparr>p_key = JStr (ustr ''!items!a_b''), p_root = ustr ''items'', p_id = ustr ''a_b'',
         p_path = [ustr ''items'', ustr ''X__a_b.json''],
         p_value = JDict [(ustr ''name'', JStr (ustr ''X''))]\<rparr>])"
  by (simp add: collide_records_def place_records_def record_dest_def file_name_of_def
        effective_id_def record_title_def title_of_def title_fields_def strip_ev ascii_only_def)

theorem same_title_distinct_safe_ids_witness:
  "place_records ascii_only two_swords = Some ([], two_swords_placed)
   \<and> record_title ascii_only (rec_value (two_swords ! 0)) (effective_id (two_swords ! 0))
       = record_title ascii_only (rec_value (two_swords ! 1)) (effective_id (two_swords ! 1))
   \<and> safe_name ascii_only (effective_id (two_swords ! 0))
       \<noteq> safe_name ascii_only (effective_id (two_swords ! 1))
   \<and> p_path (two_swords_placed ! 0) \<noteq> p_path (two_swords_placed ! 1)"
proof -
  have p: "place_records ascii_only two_swords = Some ([], two_swords_placed)"
    by (simp add: two_swords_def two_swords_placed_def place_records_def record_dest_def
          file_name_of_def effective_id_def record_title_def title_of_def title_fields_def
          strip_ev ascii_only_def)
  have t: "record_title ascii_only (rec_value (two_swords ! 0)) (effective_id (two_swords ! 0))
       = record_title ascii_only (rec_value (two_swords ! 1)) (effective_id (two_swords ! 1))"
    by (simp add: two_swords_def record_title_def title_of_def title_fields_def
          effective_id_def strip_ev ascii_only_def)
  have n: "safe_name ascii_only (effective_id (two_swords ! 0))
       \<noteq> safe_name ascii_only (effective_id (two_swords ! 1))"
    by (simp add: two_swords_def effective_id_def strip_ev ascii_only_def)
  from same_title_distinct_safe_ids[OF p _ _ t n] p t n show ?thesis
    by (simp add: two_swords_def)
qed

text \<open>
  The store \<open>collide_store\<close> holds four keys. The first two records have the same root and
  the same id, and one path; the last two have the same title and different ids, and one
  path.
\<close>

theorem record_paths_collide_counterexample:
  "extract_records ascii_only True collide_store = Inr collide_records
   \<and> map_option (map p_path \<circ> snd) (place_records ascii_only collide_records) =
       Some [[ustr ''items'', ustr ''Sword__i1.json''], [ustr ''items'', ustr ''Sword__i1.json''],
             [ustr ''items'', ustr ''X__a_b.json''], [ustr ''items'', ustr ''X__a_b.json'']]"
  by (simp add: collide_store_records collide_records_placed)

section \<open>Base64\<close>


















section \<open>UTF-8\<close>

lemma split2: "(c::nat) div 64 * 64 + c mod 64 = c" by simp













section \<open>The scanner\<close>

subsection \<open>Strings and numbers\<close>





lemma digits_of_digits: "d \<in> set (digits_of n) \<Longrightarrow> is_digit d"
proof (induction n rule: digits_of.induct)
  case (1 n)
  show ?case
  proof (cases "n < 10")
    case True
    with "1.prems" show ?thesis by (subst (asm) digits_of.simps) (simp add: is_digit_def)
  next
    case False
    with "1.prems" "1.IH" show ?thesis
      by (subst (asm) digits_of.simps) (auto simp: is_digit_def)
  qed
qed

lemma digits_of_nonempty: "digits_of n \<noteq> []"
  by (subst digits_of.simps) simp








subsection \<open>The text of a value\<close>

lemma int_repr_start:
  "\<exists>c cs. int_repr i = c # cs \<and> (is_digit c \<or> (c = 45 \<and> cs \<noteq> [] \<and> is_digit (hd cs)))"
proof (cases "i < 0")
  case True
  obtain d t where dt: "digits_of (nat (- i)) = d # t"
    using digits_of_nonempty[of "nat (- i)"] by (cases "digits_of (nat (- i))") auto
  with digits_of_digits[of d "nat (- i)"] True show ?thesis by (simp add: int_repr_def)
next
  case False
  obtain d t where dt: "digits_of (nat i) = d # t"
    using digits_of_nonempty[of "nat i"] by (cases "digits_of (nat i)") auto
  with digits_of_digits[of d "nat i"] False show ?thesis by (simp add: int_repr_def)
qed

lemma dumps_start: "\<exists>c cs. json_dumps v = c # cs \<and> value_start c"
proof (cases v)
  case (JInt i)
  from int_repr_start[of i] show ?thesis by (auto simp: JInt value_start_def)
qed (auto simp: value_start_def json_string_def)



lemma dumps_not_close: "take 1 (json_dumps v @ r) \<noteq> [93]"
  using dumps_start[of v] by (auto simp: value_start_def is_digit_def)









subsection \<open>Parsing the text of a value\<close>







subsection \<open>The bound on the calls\<close>

text \<open>
  Every successful call of the scanner consumes input, so the calls \<open>json_loads\<close> allows
  are enough for every input: \<open>ScannerFuel\<close> is never its result.
\<close>

lemma skip_ws_length: "length (skip_ws s) \<le> length s"
  by (simp add: skip_ws_def length_dropWhile_le)

lemma cons_char_Inr: "cons_char c r = Inr (s, rest) \<Longrightarrow> \<exists>s'. r = Inr (s', rest)"
  by (auto simp: cons_char_def split: sum.splits)

lemma cons_char_Inl: "cons_char c r = Inl e \<Longrightarrow> r = Inl e"
  by (auto simp: cons_char_def split: sum.splits)

lemma scanstring_shorter: "scanstring s = Inr (str, rest) \<Longrightarrow> length rest < length s"
proof (induction s arbitrary: str rule: scanstring.induct)
  case 1
  then show ?case by simp
next
  case (2 c cs)
  show ?case
  proof (cases "c = 34")
    case True
    with "2.prems" show ?thesis by simp
  next
    case n34: False
    show ?thesis
    proof (cases "c = 92")
      case False
      with n34 "2.prems" have lt: "\<not> c < 32" and r: "cons_char c (scanstring cs) = Inr (str, rest)"
        by (auto split: if_splits)
      from cons_char_Inr[OF r] obtain s' where "scanstring cs = Inr (s', rest)" by blast
      from "2.IH"(5)[OF n34 False lt this] show ?thesis by simp
    next
      case True
      with n34 "2.prems" obtain e r where cs: "cs = e # r" by (cases cs) auto
      show ?thesis
      proof (cases "e = 117")
        case False
        with True n34 cs "2.prems" obtain x where u: "unescape e = Some x"
          and r: "cons_char x (scanstring r) = Inr (str, rest)"
          by (auto split: option.splits)
        from cons_char_Inr[OF r] obtain s' where "scanstring r = Inr (s', rest)" by blast
        from "2.IH"(4)[OF n34 True cs False u this] show ?thesis by (simp add: cs)
      next
        case u: True
        with True n34 cs "2.prems" obtain hi where h: "hex4 r = Some hi"
          by (auto split: option.splits)
        let ?pair = "0xD800 \<le> hi \<and> hi \<le> 0xDBFF \<and> take 2 (drop 4 r) = [92, 117] \<and> length r > 10"
        show ?thesis
        proof (cases ?pair)
          case False
          with True n34 cs u h "2.prems" have r: "cons_char hi (scanstring (drop 4 r)) = Inr (str, rest)"
            by (simp split: if_splits)
          from cons_char_Inr[OF r] obtain s' where "scanstring (drop 4 r) = Inr (s', rest)" by blast
          from "2.IH"(3)[OF n34 True cs u h False this] show ?thesis by (simp add: cs)
        next
          case p: True
          with True n34 cs u h "2.prems" obtain lo where l: "hex4 (drop 6 r) = Some lo"
            by (auto split: option.splits)
          show ?thesis
          proof (cases "0xDC00 \<le> lo \<and> lo \<le> 0xDFFF")
            case lo: True
            with True n34 cs u h p l "2.prems" obtain y where
              r: "cons_char y (scanstring (drop 10 r)) = Inr (str, rest)"
              by auto
            from cons_char_Inr[OF r] obtain s' where "scanstring (drop 10 r) = Inr (s', rest)" by blast
            from "2.IH"(1)[OF n34 True cs u h p l lo this] show ?thesis by (simp add: cs)
          next
            case lo: False
            with True n34 cs u h p l "2.prems" have
              r: "cons_char hi (scanstring (drop 4 r)) = Inr (str, rest)"
              by auto
            from cons_char_Inr[OF r] obtain s' where "scanstring (drop 4 r) = Inr (s', rest)" by blast
            from "2.IH"(2)[OF n34 True cs u h p l lo this] show ?thesis by (simp add: cs)
          qed
        qed
      qed
    qed
  qed
qed

lemma scanstring_error: "scanstring s = Inl e \<Longrightarrow> e = JSONDecodeError"
proof (induction s rule: scanstring.induct)
  case 1
  then show ?case by simp
next
  case (2 c cs)
  from "2.prems" show ?case
    by (auto split: if_splits list.splits option.splits dest!: cons_char_Inl
          intro: "2.IH"(1) "2.IH"(2) "2.IH"(3) "2.IH"(4) "2.IH"(5))
qed

lemma match_number_rest:
  assumes "match_number s = Inr (v, r)"
  shows "\<exists>d t. (if take 1 s = [45] then drop 1 s else s) = d # t \<and> length r \<le> length t"
proof -
  define s1 where "s1 = (if take 1 s = [45] then drop 1 s else s)"
  have m: "match_number s =
     (case s1 of
           [] \<Rightarrow> Inl JSONDecodeError
         | d # t \<Rightarrow>
             if 49 \<le> d \<and> d \<le> 57 \<or> d = 48 then
               (let ds = (if d = 48 then [d] else d # takeWhile is_digit t);
                    r = (if d = 48 then t else dropWhile is_digit t);
                    n = int (int_of_digits ds 0)
                in if has_frac r \<or> has_exp r then Inl FloatUnmodelled
                   else Inr (JInt (if take 1 s = [45] then - n else n), r))
             else Inl JSONDecodeError)"
    unfolding match_number_def s1_def Let_def by (rule refl)
  show ?thesis
  proof (cases s1)
    case Nil
    with assms m show ?thesis by simp
  next
    case (Cons d t)
    with assms m have "r = (if d = 48 then t else dropWhile is_digit t)"
      by (simp add: Let_def split: if_splits)
    then have "length r \<le> length t" by (simp add: length_dropWhile_le)
    with Cons show ?thesis unfolding s1_def by blast
  qed
qed

lemma match_number_shorter: "match_number s = Inr (v, r) \<Longrightarrow> length r < length s"
proof -
  assume "match_number s = Inr (v, r)"
  from match_number_rest[OF this] obtain d t where
    e: "(if take 1 s = [45] then drop 1 s else s) = d # t" and l: "length r \<le> length t" by blast
  have "length (if take 1 s = [45] then drop 1 s else s) \<le> length s" by simp
  with e have "Suc (length t) \<le> length s" by simp
  with l show ?thesis by simp
qed

lemma match_number_error: "match_number s = Inl e \<Longrightarrow> e \<noteq> ScannerFuel"
  by (auto simp: match_number_def Let_def split: list.splits if_splits)

lemma skip_ws_drop_length: "length (skip_ws (drop k s)) \<le> length s - k"
  using skip_ws_length[of "drop k s"] by simp

lemma take1_nonempty: "take 1 s = [c] \<Longrightarrow> s \<noteq> []"
  by auto

lemma scan_once_step_shorter:
  assumes pa: "\<And>acc s v r. parse_array n acc s = Inr (v, r) \<Longrightarrow> length r < length s"
    and po: "\<And>acc s v r. parse_object n acc s = Inr (v, r) \<Longrightarrow> length r < length s"
    and a: "scan_once (Suc n) s = Inr (v, r)"
  shows "length r < length s"
proof (cases s)
  case Nil
  with a show ?thesis by simp
next
  case (Cons c cs)
  have ws: "length (skip_ws cs) \<le> length cs" by (rule skip_ws_length)
  consider (str) "c = 34" | (obj) "c = 123" | (arr) "c = 91" | (other) "c \<noteq> 34" "c \<noteq> 123" "c \<noteq> 91"
    by blast
  then show ?thesis
  proof cases
    case str
    with a Cons obtain x where "scanstring cs = Inr (x, r)"
      by (auto split: sum.splits)
    from scanstring_shorter[OF this] Cons show ?thesis by simp
  next
    case obj
    show ?thesis
    proof (cases "take 1 (skip_ws cs) = [125]")
      case True
      with a Cons obj have "r = drop 1 (skip_ws cs)" by (simp add: Let_def)
      with ws Cons show ?thesis by simp
    next
      case False
      with a Cons obj have "parse_object n [] (skip_ws cs) = Inr (v, r)" by (simp add: Let_def)
      from po[OF this] ws Cons show ?thesis by simp
    qed
  next
    case arr
    show ?thesis
    proof (cases "take 1 (skip_ws cs) = [93]")
      case True
      with a Cons arr have "r = drop 1 (skip_ws cs)" by (simp add: Let_def)
      with ws Cons show ?thesis by simp
    next
      case False
      with a Cons arr have "parse_array n [] (skip_ws cs) = Inr (v, r)" by (simp add: Let_def)
      from pa[OF this] ws Cons show ?thesis by simp
    qed
  next
    case other
    with a have "r = drop 4 s \<or> r = drop 5 s \<or> match_number s = Inr (v, r)"
      unfolding Cons scan_once.simps list.case by (simp split: if_splits)
    then show ?thesis using Cons match_number_shorter[of s v r] by auto
  qed
qed

lemma parse_array_step_shorter:
  assumes so: "\<And>s v r. scan_once n s = Inr (v, r) \<Longrightarrow> length r < length s"
    and pa: "\<And>acc s v r. parse_array n acc s = Inr (v, r) \<Longrightarrow> length r < length s"
    and a: "parse_array (Suc n) acc s = Inr (v, r)"
  shows "length r < length s"
proof -
  from a obtain x rest where s: "scan_once n s = Inr (x, rest)"
    by (auto split: sum.splits)
  note l = so[OF s]
  have ws: "length (skip_ws rest) \<le> length rest" by (rule skip_ws_length)
  show ?thesis
  proof (cases "take 1 (skip_ws rest) = [93]")
    case True
    with a s have "r = drop 1 (skip_ws rest)" by (simp add: Let_def)
    with ws l show ?thesis by simp
  next
    case False
    with a s have "parse_array n (acc @ [x]) (skip_ws (drop 1 (skip_ws rest))) = Inr (v, r)"
      by (simp add: Let_def split: if_splits)
    from pa[OF this] skip_ws_drop_length[of 1 "skip_ws rest"] ws l show ?thesis by simp
  qed
qed

lemma parse_object_step_shorter:
  assumes so: "\<And>s v r. scan_once n s = Inr (v, r) \<Longrightarrow> length r < length s"
    and po: "\<And>acc s v r. parse_object n acc s = Inr (v, r) \<Longrightarrow> length r < length s"
    and a: "parse_object (Suc n) acc s = Inr (v, r)"
  shows "length r < length s"
proof -
  from a have q: "take 1 s = [34]" by (simp split: if_splits)
  with a obtain key rest where k: "scanstring (drop 1 s) = Inr (key, rest)"
    by (auto split: sum.splits)
  from scanstring_shorter[OF k] have l1: "length rest < length s" by simp
  have ws: "length (skip_ws rest) \<le> length rest" by (rule skip_ws_length)
  from a q k have c: "take 1 (skip_ws rest) = [58]" by (simp add: Let_def split: if_splits)
  with a q k obtain x rest2 where
    s: "scan_once n (skip_ws (drop 1 (skip_ws rest))) = Inr (x, rest2)"
    by (auto simp: Let_def split: sum.splits)
  from so[OF s] skip_ws_drop_length[of 1 "skip_ws rest"] ws l1
  have l2: "length rest2 < length s" by simp
  have ws2: "length (skip_ws rest2) \<le> length rest2" by (rule skip_ws_length)
  show ?thesis
  proof (cases "take 1 (skip_ws rest2) = [125]")
    case True
    with a q k c s have "r = drop 1 (skip_ws rest2)" by (simp add: Let_def)
    with ws2 l2 show ?thesis by simp
  next
    case False
    with a q k c s have
      "parse_object n (dict_set acc key x) (skip_ws (drop 1 (skip_ws rest2))) = Inr (v, r)"
      by (simp add: Let_def split: if_splits)
    from po[OF this] skip_ws_drop_length[of 1 "skip_ws rest2"] ws2 l2 show ?thesis by simp
  qed
qed

lemma scanner_shorter:
  "(\<forall>s v r. scan_once n s = Inr (v, r) \<longrightarrow> length r < length s)
   \<and> (\<forall>acc s v r. parse_array n acc s = Inr (v, r) \<longrightarrow> length r < length s)
   \<and> (\<forall>acc s v r. parse_object n acc s = Inr (v, r) \<longrightarrow> length r < length s)"
proof (induction n)
  case 0
  show ?case by simp
next
  case (Suc n)
  then have so: "\<And>s v r. scan_once n s = Inr (v, r) \<Longrightarrow> length r < length s"
    and pa: "\<And>acc s v r. parse_array n acc s = Inr (v, r) \<Longrightarrow> length r < length s"
    and po: "\<And>acc s v r. parse_object n acc s = Inr (v, r) \<Longrightarrow> length r < length s"
    by blast+
  have 1: "length r < length s" if "scan_once (Suc n) s = Inr (v, r)" for s v r
    by (rule scan_once_step_shorter[of n s v r]) (erule pa, erule po, rule that)
  have 2: "length r < length s" if "parse_array (Suc n) acc s = Inr (v, r)" for acc s v r
    by (rule parse_array_step_shorter[of n acc s v r]) (erule so, erule pa, rule that)
  have 3: "length r < length s" if "parse_object (Suc n) acc s = Inr (v, r)" for acc s v r
    by (rule parse_object_step_shorter[of n acc s v r]) (erule so, erule po, rule that)
  from 1 2 3 show ?case by blast
qed

lemma scan_once_shorter: "scan_once n s = Inr (v, r) \<Longrightarrow> length r < length s"
  using scanner_shorter[of n] by blast

lemma parse_array_shorter: "parse_array n acc s = Inr (v, r) \<Longrightarrow> length r < length s"
  using scanner_shorter[of n] by blast

lemma parse_object_shorter: "parse_object n acc s = Inr (v, r) \<Longrightarrow> length r < length s"
  using scanner_shorter[of n] by blast

lemma scan_once_step_fuel:
  assumes pa: "\<And>acc s. 2 * length s + 1 < n \<Longrightarrow> parse_array n acc s \<noteq> Inl ScannerFuel"
    and po: "\<And>acc s. 2 * length s + 1 < n \<Longrightarrow> parse_object n acc s \<noteq> Inl ScannerFuel"
    and b: "2 * length s < Suc n"
  shows "scan_once (Suc n) s \<noteq> Inl ScannerFuel"
proof (cases s)
  case Nil
  then show ?thesis by simp
next
  case (Cons c cs)
  have ws: "length (skip_ws cs) \<le> length cs" by (rule skip_ws_length)
  with b Cons have f: "2 * length (skip_ws cs) + 1 < n" by simp
  consider (str) "c = 34" | (obj) "c = 123" | (arr) "c = 91" | (other) "c \<noteq> 34" "c \<noteq> 123" "c \<noteq> 91"
    by blast
  then show ?thesis
  proof cases
    case str
    show ?thesis
    proof (cases "scanstring cs")
      case (Inl e)
      with scanstring_error[of cs e] str Cons show ?thesis by simp
    next
      case (Inr p)
      with str Cons show ?thesis by (simp split: prod.splits)
    qed
  next
    case obj
    then show ?thesis using Cons po[OF f, of "[]"] by (simp add: Let_def)
  next
    case arr
    then show ?thesis using Cons pa[OF f, of "[]"] by (simp add: Let_def)
  next
    case other
    have mn: "match_number (c # cs) \<noteq> Inl ScannerFuel"
      using match_number_error[of "c # cs" ScannerFuel] by blast
    from other mn show ?thesis
      unfolding Cons scan_once.simps list.case by simp
  qed
qed

lemma parse_array_step_fuel:
  assumes so: "\<And>s. 2 * length s < n \<Longrightarrow> scan_once n s \<noteq> Inl ScannerFuel"
    and pa: "\<And>acc s. 2 * length s + 1 < n \<Longrightarrow> parse_array n acc s \<noteq> Inl ScannerFuel"
    and b: "2 * length s + 1 < Suc n"
  shows "parse_array (Suc n) acc s \<noteq> Inl ScannerFuel"
proof (cases "scan_once n s")
  case (Inl e)
  from b have "2 * length s < n" by simp
  from so[OF this] Inl have "e \<noteq> ScannerFuel" by auto
  with Inl show ?thesis by simp
next
  case (Inr p)
  obtain x rest where p: "p = (x, rest)" by (cases p)
  from scan_once_shorter[of n s x rest] Inr p have l: "length rest < length s" by simp
  have ws: "length (skip_ws rest) \<le> length rest" by (rule skip_ws_length)
  show ?thesis
  proof (cases "take 1 (skip_ws rest) = [44]")
    case False
    with Inr p show ?thesis by (simp add: Let_def)
  next
    case True
    then have ne: "skip_ws rest \<noteq> []" by auto
    then have "0 < length (skip_ws rest)" by simp
    with skip_ws_drop_length[of 1 "skip_ws rest"] ws l b
    have "2 * length (skip_ws (drop 1 (skip_ws rest))) + 1 < n" by simp
    from pa[OF this, of "acc @ [x]"] Inr p True show ?thesis by (simp add: Let_def)
  qed
qed

lemma parse_object_step_fuel:
  assumes so: "\<And>s. 2 * length s < n \<Longrightarrow> scan_once n s \<noteq> Inl ScannerFuel"
    and po: "\<And>acc s. 2 * length s + 1 < n \<Longrightarrow> parse_object n acc s \<noteq> Inl ScannerFuel"
    and b: "2 * length s + 1 < Suc n"
  shows "parse_object (Suc n) acc s \<noteq> Inl ScannerFuel"
proof (cases "take 1 s = [34]")
  case False
  then show ?thesis by simp
next
  case q: True
  show ?thesis
  proof (cases "scanstring (drop 1 s)")
    case (Inl e)
    with scanstring_error[of "drop 1 s" e] q show ?thesis by simp
  next
    case (Inr p)
    obtain key rest where p: "p = (key, rest)" by (cases p)
    from scanstring_shorter[of "drop 1 s" key rest] Inr p have l1: "length rest < length s" by simp
    have ws: "length (skip_ws rest) \<le> length rest" by (rule skip_ws_length)
    show ?thesis
    proof (cases "take 1 (skip_ws rest) = [58]")
      case False
      with q Inr p show ?thesis by (simp add: Let_def)
    next
      case c: True
      let ?s2 = "skip_ws (drop 1 (skip_ws rest))"
      from skip_ws_drop_length[of 1 "skip_ws rest"] ws l1
      have l2: "length ?s2 < length s" by simp
      show ?thesis
      proof (cases "scan_once n ?s2")
        case (Inl e)
        from l2 b have "2 * length ?s2 < n" by simp
        from so[OF this] Inl have "e \<noteq> ScannerFuel" by auto
        with Inl q Inr p c show ?thesis by (simp add: Let_def)
      next
        case r2: (Inr p2)
        obtain x rest2 where p2: "p2 = (x, rest2)" by (cases p2)
        from scan_once_shorter[of n ?s2 x rest2] r2 p2 have l3: "length rest2 < length ?s2" by simp
        have ws2: "length (skip_ws rest2) \<le> length rest2" by (rule skip_ws_length)
        show ?thesis
        proof (cases "take 1 (skip_ws rest2) = [44]")
          case False
          with q Inr p c r2 p2 show ?thesis by (simp add: Let_def)
        next
          case True
          from skip_ws_drop_length[of 1 "skip_ws rest2"] ws2 l3 l2 b
          have "2 * length (skip_ws (drop 1 (skip_ws rest2))) + 1 < n" by simp
          from po[OF this, of "dict_set acc key x"] q Inr p c r2 p2 True show ?thesis
            by (simp add: Let_def)
        qed
      qed
    qed
  qed
qed

lemma scanner_fuel:
  "(\<forall>s. 2 * length s < n \<longrightarrow> scan_once n s \<noteq> Inl ScannerFuel)
   \<and> (\<forall>acc s. 2 * length s + 1 < n \<longrightarrow> parse_array n acc s \<noteq> Inl ScannerFuel)
   \<and> (\<forall>acc s. 2 * length s + 1 < n \<longrightarrow> parse_object n acc s \<noteq> Inl ScannerFuel)"
proof (induction n)
  case 0
  show ?case by simp
next
  case (Suc n)
  then have so: "\<And>s. 2 * length s < n \<Longrightarrow> scan_once n s \<noteq> Inl ScannerFuel"
    and pa: "\<And>acc s. 2 * length s + 1 < n \<Longrightarrow> parse_array n acc s \<noteq> Inl ScannerFuel"
    and po: "\<And>acc s. 2 * length s + 1 < n \<Longrightarrow> parse_object n acc s \<noteq> Inl ScannerFuel"
    by blast+
  have 1: "scan_once (Suc n) s \<noteq> Inl ScannerFuel" if "2 * length s < Suc n" for s
    by (rule scan_once_step_fuel[of n s]) (erule pa, erule po, rule that)
  have 2: "parse_array (Suc n) acc s \<noteq> Inl ScannerFuel" if "2 * length s + 1 < Suc n" for acc s
    by (rule parse_array_step_fuel[of n s acc]) (erule so, erule pa, rule that)
  have 3: "parse_object (Suc n) acc s \<noteq> Inl ScannerFuel" if "2 * length s + 1 < Suc n" for acc s
    by (rule parse_object_step_fuel[of n s acc]) (erule so, erule po, rule that)
  from 1 2 3 show ?case by blast
qed

lemma json_loads_fuel: "json_loads s \<noteq> Inl ScannerFuel"
proof -
  define n where "n = Suc (2 * length s)"
  have "2 * length (skip_ws s) < n"
    using skip_ws_length[of s] by (simp add: n_def)
  with scanner_fuel[of n] have f: "scan_once n (skip_ws s) \<noteq> Inl ScannerFuel" by blast
  have "json_loads s =
      (if take 1 s = [0xFEFF] then Inl JSONDecodeError
       else (case scan_once n (skip_ws s) of
           Inl e \<Rightarrow> Inl e
         | Inr (v, rest) \<Rightarrow> if skip_ws rest = [] then Inr v else Inl JSONDecodeError))"
    unfolding json_loads_def n_def by (rule refl)
  with f show ?thesis
    by (cases "scan_once n (skip_ws s)") (auto split: prod.splits)
qed

section \<open>Decoded bytes\<close>









section \<open>The value codec\<close>

text \<open>
  C9. \<open>_encode_value\<close> base64-decodes exactly the dicts whose only key is base64 with a
  str value. Every other dict, also one with a second key or with a base64 value that
  is not a str, is serialized compactly and encoded as UTF-8; a value that is not a dict
  is never base64-decoded.
\<close>

theorem base64_wrapper_strictness:
  "(set (map fst d) = {ustr ''base64''} \<and> dict_get d (ustr ''base64'') = Some (JStr s)
      \<longrightarrow> looks_like_base64_wrapper (JDict d) \<and> encode_value (JDict d) = b64decode s)
   \<and> (\<not> (set (map fst d) = {ustr ''base64''} \<and> (\<exists>t. dict_get d (ustr ''base64'') = Some (JStr t)))
      \<longrightarrow> \<not> looks_like_base64_wrapper (JDict d)
          \<and> encode_value (JDict d) = encode_utf8 (json_dumps (JDict d)))
   \<and> ((\<forall>d'. v \<noteq> JDict d')
      \<longrightarrow> \<not> looks_like_base64_wrapper v
          \<and> encode_value v = (case v of JStr t \<Rightarrow> encode_utf8 t | _ \<Rightarrow> encode_utf8 (json_dumps v)))"
  by (auto simp: looks_like_base64_wrapper_def encode_value_def split: json.splits option.splits)

theorem base64_wrapper_strictness_witness:
  "encode_value (JDict [(ustr ''base64'', JStr (ustr ''aGk=''))]) = Inr (ustr ''hi'')
   \<and> encode_value (JDict [(ustr ''base64'', JStr (ustr ''aGk='')), (ustr ''x'', JInt 1)])
       = Inr (ustr ''{\"base64\":\"aGk=\",\"x\":1}'')
   \<and> encode_value (JDict [(ustr ''base64'', JInt 7)]) = Inr (ustr ''{\"base64\":7}'')
   \<and> encode_value (JList [JStr (ustr ''base64'')]) = Inr (ustr ''[\"base64\"]'')"
  using base64_wrapper_strictness[of "[(ustr ''base64'', JStr (ustr ''aGk=''))]" "ustr ''aGk=''" JNull]
    base64_wrapper_strictness[of "[(ustr ''base64'', JStr (ustr ''aGk='')), (ustr ''x'', JInt 1)]"
      "[]" JNull]
    base64_wrapper_strictness[of "[(ustr ''base64'', JInt 7)]" "[]" JNull]
    base64_wrapper_strictness[of "[]" "[]" "JList [JStr (ustr ''base64'')]"]
  by (simp add: b64_ev utf8_ev json_string_def escape_char_def int_repr_def digits_of.simps)

subsection \<open>Round trips\<close>










section \<open>The diff\<close>




section \<open>The merge\<close>

lemma put_all_get:
  "dict_get (put_all m rs) k
     = (case map_of (rev rs) k of Some v \<Rightarrow> Some v | None \<Rightarrow> dict_get m k)"
proof (induction rs arbitrary: m)
  case Nil
  then show ?case by simp
next
  case (Cons r rs)
  obtain k' v' where r: "r = (k', v')" by (cases r)
  show ?case using Cons.IH[of "dict_set m k' v'"]
    by (auto simp: r dict_get_set map_add_def split: option.splits)
qed

text \<open>
  C6. When a known record has the key K and the new records hold K too, the merged
  mapping gives K the content of the new file (of the last one, should several new
  files give K).
\<close>

theorem merge_new_overrides_known:
  assumes "(K, vk) \<in> set known_records"
    and "new_records = earlier @ (K, vn) # later"
    and "K \<notin> fst ` set later"
  shows "dict_get (merge_records known_records new_records) K = Some vn"
proof -
  have "map_of (rev later) K = None"
    using assms(3) by (simp add: map_of_eq_None_iff)
  then have "map_of (rev new_records) K = Some vn"
    by (simp add: assms(2) map_add_def)
  then show ?thesis
    by (simp add: merge_records_def put_all_get)
qed

theorem merge_new_overrides_known_witness:
  "dict_get (merge_records [(ustr ''!items!a'', ustr ''old''), (ustr ''!items!b'', ustr ''kept'')]
       [(ustr ''!items!c'', ustr ''added''), (ustr ''!items!a'', ustr ''new'')]) (ustr ''!items!a'')
     = Some (ustr ''new'')"
  using merge_new_overrides_known[of "ustr ''!items!a''" "ustr ''old''"
      "[(ustr ''!items!a'', ustr ''old''), (ustr ''!items!b'', ustr ''kept'')]"
      "[(ustr ''!items!c'', ustr ''added''), (ustr ''!items!a'', ustr ''new'')]"
      "[(ustr ''!items!c'', ustr ''added'')]" "ustr ''new''" "[]"]
  by simp

section \<open>Known records\<close>

lemma known_record_missing: "missing_file fs item = Some p \<Longrightarrow> known_record fs item = None"
  by (auto simp: missing_file_def known_record_def read_json_def split: option.splits if_splits prod.splits)




section \<open>New records\<close>


















subsection \<open>A pass on concrete files\<close>










end
